theory Spec2Isabelle
  imports Complex_Main "HOL-Library.Word"
begin

section \<open>Model 3D exporter (io\_export\_m3d.py): shallow embedding\<close>

text \<open>
  The exporter is one Python function, \<open>write_m3d\<close>, with nested helpers. Python's
  unbounded integers are \<open>int\<close> and byte strings are lists of 8-bit words. A Python
  float is a double: a finite double is a rational number, and a float is modelled by
  that number (\<open>rat\<close>). Comparisons, \<open>abs\<close>, \<open>min\<close>, \<open>max\<close>, \<open>round(x)\<close> and \<open>int(x)\<close>
  are exact on doubles and are written with the operations of the rationals. The
  arithmetic of doubles is not: a sum, product or quotient and \<open>round(x, digits)\<close> are
  rounded to a double. These operations are a parameter \<open>F\<close> of every function that
  uses them (section \<open>Floats\<close>). A raised exception is a value of type \<open>error\<close>.
\<close>

type_synonym byte = "8 word"

datatype error = StructError | KeyError | IndexError | NameError | TypeError | AttributeError

subsection \<open>struct.pack for the unsigned formats the exporter uses\<close>

text \<open>\<open>pack("<B", v)\<close>, \<open>pack("<H", v)\<close> and \<open>pack("<I", v)\<close> raise \<open>struct.error\<close>
  when \<open>v\<close> is outside the range of the format, and write \<open>v\<close> little-endian otherwise.\<close>

definition pack_B :: "int \<Rightarrow> error + byte list" where
  "pack_B v = (if 0 \<le> v \<and> v \<le> 255 then Inr [word_of_int v] else Inl StructError)"

definition pack_H :: "int \<Rightarrow> error + byte list" where
  "pack_H v = (if 0 \<le> v \<and> v \<le> 65535
               then Inr [word_of_int v, word_of_int (v div 256)]
               else Inl StructError)"

definition pack_I :: "int \<Rightarrow> error + byte list" where
  "pack_I v = (if 0 \<le> v \<and> v \<le> 4294967295
               then Inr [word_of_int v, word_of_int (v div 256),
                         word_of_int (v div 65536), word_of_int (v div 16777216)]
               else Inl StructError)"

text \<open>The unsigned value a little-endian byte string denotes.\<close>

fun le_val :: "byte list \<Rightarrow> int" where
  "le_val [] = 0"
| "le_val (b # bs) = uint b + 256 * le_val bs"

subsection \<open>Option normalisation at the start of the run (lines 288-324)\<close>

record options =
  use_skeleton :: bool
  use_animation :: bool
  use_fps :: int

text \<open>Lines 290-293: animation switches the skeleton on; an out-of-range frame rate
  becomes 25.\<close>

definition normalize_options :: "options \<Rightarrow> options" where
  "normalize_options opts =
     (let o1 = (if use_animation opts then opts\<lparr>use_skeleton := True\<rparr> else opts);
          o2 = (if use_fps o1 < 1 \<or> use_fps o1 > 120 then o1\<lparr>use_fps := 25\<rparr> else o1)
      in o2)"

text \<open>Lines 303-317: \<open>n\<close> is the number of polygons counted over the exported mesh
  objects; it is only used when the requested tier is outside 0..3.\<close>

definition select_quality :: "int \<Rightarrow> nat \<Rightarrow> bool \<Rightarrow> int" where
  "select_quality use_quality n use_gridcompress =
     (let q1 = (if use_quality < 0 \<or> use_quality > 3
                then (if n < 1024 then 0 else 1) else use_quality);
          q2 = (if use_gridcompress = False \<and> q1 < 2 then 2 else q1)
      in q2)"

text \<open>Lines 319-324. The source is
  \<^verbatim>\<open>if use_quality == 3: digits = 15\<close>
  \<^verbatim>\<open>if use_quality == 2: digits = 7\<close>
  \<^verbatim>\<open>else: digits = 4\<close>
  two separate statements: the second one assigns \<open>digits\<close> on both of its branches.
  \<open>digits\<close> is unbound (\<open>None\<close>) before the first statement.\<close>

definition quality_digits :: "int \<Rightarrow> nat" where
  "quality_digits use_quality =
     (let digits0 = (None :: nat option);
          digits1 = (if use_quality = 3 then Some 15 else digits0);
          digits2 = (if use_quality = 2 then Some 7 else Some 4)
      in the digits2)"

subsection \<open>Index widths (lines 169-196)\<close>

definition idxsize :: "int \<Rightarrow> nat" where
  "idxsize cnt =
     (if cnt = 0 then 3
      else if cnt < 254 then 0
      else if cnt < 65534 then 1
      else 2)"

definition addidx :: "nat \<Rightarrow> int \<Rightarrow> error + byte list" where
  "addidx fmt idx =
     (if fmt = 0 then pack_B (if idx < 0 then 256 + idx else idx)
      else if fmt = 1 then pack_H (if idx < 0 then 65536 + idx else idx)
      else if fmt = 2 then pack_I (if idx < 0 then 4294967296 + idx else idx)
      else Inr [])"

subsection \<open>End of the binary writer (lines 1182-1190)\<close>

text \<open>A byte string literal such as \<open>b'3DMO'\<close>: the ASCII codes of its characters.\<close>

definition bytes_of :: "string \<Rightarrow> byte list" where
  "bytes_of s = map (\<lambda>c. of_nat (of_char c)) s"

text \<open>
  \<open>buf\<close> is the chunk buffer the writer has built up to line 1180. \<open>zlib.compress\<close> is
  a library function and stays a parameter. \<open>pack("<L", s)\<close> is the same 4-byte
  little-endian format as \<open>pack("<I", s)\<close>; when it raises, the export fails. The
  result is the byte string handed to \<open>f.write\<close>.
\<close>

definition finish_binary ::
  "(byte list \<Rightarrow> byte list) \<Rightarrow> bool \<Rightarrow> byte list \<Rightarrow> error + byte list" where
  "finish_binary zlib_compress use_strmcompress buf =
     (let buf1 = buf @ bytes_of ''OMD3'';
          buf2 = (if use_strmcompress then zlib_compress buf1 else buf1);
          s = int (length buf2) + 8
      in case pack_I s of
           Inl e \<Rightarrow> Inl e
         | Inr l \<Rightarrow> Inr (bytes_of ''3DMO'' @ l @ buf2))"

subsection \<open>Rounding\<close>

text \<open>Python's \<open>round(x)\<close>: to the nearest integer, a tie to the even one.\<close>

definition py_round :: "rat \<Rightarrow> int" where
  "py_round x =
     (let f = \<lfloor>x\<rfloor>; d = x - of_int f
      in if d < 1 / 2 then f
         else if 1 / 2 < d then f + 1
         else if even f then f else f + 1)"

text \<open>\<open>int(x)\<close> on a float truncates towards zero.\<close>

definition py_int :: "rat \<Rightarrow> int" where
  "py_int x = (if 0 \<le> x then \<lfloor>x\<rfloor> else \<lceil>x\<rceil>)"

text \<open>The decimal number with \<open>digits\<close> places nearest to \<open>x\<close>, a tie to the even one.\<close>

definition round_digits :: "rat \<Rightarrow> nat \<Rightarrow> rat" where
  "round_digits x digits = of_int (py_round (x * 10 ^ digits)) / 10 ^ digits"

subsection \<open>Floats\<close>

text \<open>
  The operations of Python on doubles that round their result: \<open>x + y\<close>, \<open>x * y\<close>,
  \<open>x / y\<close>, \<open>round(x, digits)\<close> and the conversion of an integer to a float. The
  functions of the exporter take them as the record \<open>F\<close>, so that a statement proved
  for every \<open>F\<close> holds for the operations of the machine.
\<close>

record float_ops =
  f_add :: "rat \<Rightarrow> rat \<Rightarrow> rat"
  f_mul :: "rat \<Rightarrow> rat \<Rightarrow> rat"
  f_div :: "rat \<Rightarrow> rat \<Rightarrow> rat"
  f_round :: "rat \<Rightarrow> nat \<Rightarrow> rat"
  f_of_int :: "int \<Rightarrow> rat"

text \<open>
  The operations of IEEE 754 binary64 with rounding to nearest, ties to even, on
  numbers in the normal range: the exact result is rounded to 53 significant bits.
  \<open>bit_length n\<close> is the number of binary digits of \<open>n\<close>, \<open>ilog2 x\<close> is the exponent \<open>e\<close>
  with \<open>2 ^ e \<le> \<bar>x\<bar> < 2 ^ (e + 1)\<close>, and \<open>dbl x\<close> is the double nearest to \<open>x\<close>.
  \<open>round(x, digits)\<close> is correctly rounded: the double nearest to the decimal rounding of
  the exact value of \<open>x\<close>. Overflow, subnormal numbers, infinities and NaN are outside
  this model.
\<close>

function bit_length :: "int \<Rightarrow> int" where
  "bit_length n = (if n \<le> 0 then 0 else 1 + bit_length (n div 2))"
  by pat_completeness auto
termination
  by (relation "measure nat") auto

declare bit_length.simps [simp del]

definition pow2 :: "int \<Rightarrow> rat" where
  "pow2 e = (if 0 \<le> e then 2 ^ nat e else 1 / 2 ^ nat (- e))"

definition ilog2 :: "rat \<Rightarrow> int" where
  "ilog2 x =
     (case quotient_of \<bar>x\<bar> of (a, b) \<Rightarrow>
        (let d = bit_length a - bit_length b
         in if pow2 d \<le> \<bar>x\<bar> then d else d - 1))"

definition dbl :: "rat \<Rightarrow> rat" where
  "dbl x = (if x = 0 then 0
            else (let u = pow2 (ilog2 x - 52) in of_int (py_round (x / u)) * u))"

definition dbl_add :: "rat \<Rightarrow> rat \<Rightarrow> rat" where
  "dbl_add x y = dbl (x + y)"

definition dbl_mul :: "rat \<Rightarrow> rat \<Rightarrow> rat" where
  "dbl_mul x y = dbl (x * y)"

definition dbl_div :: "rat \<Rightarrow> rat \<Rightarrow> rat" where
  "dbl_div x y = dbl (x / y)"

definition dbl_round :: "rat \<Rightarrow> nat \<Rightarrow> rat" where
  "dbl_round x digits = dbl (round_digits x digits)"

definition dbl_of_int :: "int \<Rightarrow> rat" where
  "dbl_of_int i = dbl (of_int i)"

definition double_ops :: float_ops where
  "double_ops = \<lparr>f_add = dbl_add, f_mul = dbl_mul, f_div = dbl_div, f_round = dbl_round,
                  f_of_int = dbl_of_int\<rparr>"

subsection \<open>The pooled vertex table\<close>

text \<open>
  A pooled vertex is the Python list \<open>[x, y, z, w, c, s]\<close>: four numbers, a colour
  index and a skin index. The skin index -1 marks a position without skin and -2 an
  orientation quaternion. \<open>vert\<close> (lines 199-208) replaces a negative zero by zero;
  the rationals have one zero only, so the four tests change nothing here.
\<close>

record vertex =
  v_x :: rat
  v_y :: rat
  v_z :: rat
  v_w :: rat
  v_color :: int
  v_skin :: int

definition vert :: "rat \<Rightarrow> rat \<Rightarrow> rat \<Rightarrow> rat \<Rightarrow> int \<Rightarrow> int \<Rightarrow> vertex" where
  "vert x y z w c s =
     (let x1 = (if x = - 0 then 0 else x);
          y1 = (if y = - 0 then 0 else y);
          z1 = (if z = - 0 then 0 else z);
          w1 = (if w = - 0 then 0 else w)
      in \<lparr>v_x = x1, v_y = y1, v_z = z1, v_w = w1, v_color = c, v_skin = s\<rparr>)"

subsection \<open>Grid compression (lines 816-843)\<close>

record extent =
  min_x :: rat
  max_x :: rat
  min_y :: rat
  max_y :: rat
  min_z :: rat
  max_z :: rat

definition init_extent :: extent where
  "init_extent = \<lparr>min_x = 10 ^ 10, max_x = - (10 ^ 10), min_y = 10 ^ 10,
                   max_y = - (10 ^ 10), min_z = 10 ^ 10, max_z = - (10 ^ 10)\<rparr>"

text \<open>The body of \<open>for v in verts\<close> at lines 820-832: six independent comparisons, for
  every entry of the table.\<close>

definition extent_step :: "vertex \<Rightarrow> extent \<Rightarrow> extent" where
  "extent_step v e =
     (let e1 = (if v_x v < min_x e then e\<lparr>min_x := v_x v\<rparr> else e);
          e2 = (if v_x v > max_x e1 then e1\<lparr>max_x := v_x v\<rparr> else e1);
          e3 = (if v_y v < min_y e2 then e2\<lparr>min_y := v_y v\<rparr> else e2);
          e4 = (if v_y v > max_y e3 then e3\<lparr>max_y := v_y v\<rparr> else e3);
          e5 = (if v_z v < min_z e4 then e4\<lparr>min_z := v_z v\<rparr> else e4);
          e6 = (if v_z v > max_z e5 then e5\<lparr>max_z := v_z v\<rparr> else e5)
      in e6)"

definition grid_extent :: "vertex list \<Rightarrow> extent" where
  "grid_extent verts = fold extent_step verts init_extent"

definition grid_scale :: "vertex list \<Rightarrow> rat" where
  "grid_scale verts =
     (let e = grid_extent verts
      in max \<bar>min_x e\<bar> (max \<bar>max_x e\<bar> (max \<bar>min_y e\<bar> (max \<bar>max_y e\<bar>
           (max \<bar>min_z e\<bar> \<bar>max_z e\<bar>)))))"

text \<open>The body of the second loop, lines 836-839.\<close>

definition rescale_vertex :: "float_ops \<Rightarrow> rat \<Rightarrow> nat \<Rightarrow> vertex \<Rightarrow> vertex" where
  "rescale_vertex F s digits v =
     (if v_skin v \<noteq> - 2
      then v\<lparr>v_x := f_round F (f_div F (v_x v) s) digits,
             v_y := f_round F (f_div F (v_y v) s) digits,
             v_z := f_round F (f_div F (v_z v) s) digits\<rparr>
      else v)"

text \<open>Lines 816-843: returns the vertex table and \<open>use_scale\<close> as they are afterwards.\<close>

definition normalize_coordinates ::
  "float_ops \<Rightarrow> bool \<Rightarrow> rat \<Rightarrow> nat \<Rightarrow> vertex list \<Rightarrow> vertex list \<times> rat" where
  "normalize_coordinates F use_gridcompress use_scale digits verts =
     (let (verts1, use_scale1) =
            (if use_gridcompress = True then
               (let s = grid_scale verts;
                    verts' = (if s \<noteq> 1 \<and> s \<noteq> 0
                              then map (rescale_vertex F s digits) verts else verts);
                    use_scale' = (if use_scale \<le> 0 then s else use_scale)
                in (verts', use_scale'))
             else (verts, use_scale));
          use_scale2 = (if use_scale1 \<le> 0 then 1 else use_scale1)
      in (verts1, use_scale2))"

text \<open>The scale as the specification words it: the extent is taken over the
  position-kind entries only (skin index other than -2).\<close>

definition spec_position_scale :: "vertex list \<Rightarrow> rat" where
  "spec_position_scale verts = grid_scale (filter (\<lambda>v. v_skin v \<noteq> - 2) verts)"

subsection \<open>Pools and their conversion to lists (lines 154-167, 775-781)\<close>

text \<open>
  \<open>uniquedict\<close> keeps a Python dict from \<open>hash(str(e))\<close> to the pair \<open>[i, e]\<close>. A dict
  keeps its keys in insertion order: it is an association list here, a new key added at
  the end. The hash of the printed element is modelled as collision-free, and two
  elements print alike exactly when they are equal: the key is the element. (A float
  of the source can be a negative zero, which prints as \<open>-0.0\<close>; \<open>vert\<close> removes it from
  every vertex, and the numbers of this model have no negative zero.)
\<close>

definition py_hash_str :: "'a \<Rightarrow> 'a" where
  "py_hash_str e = e"

type_synonym ('k, 'a) pydict = "('k \<times> nat \<times> 'a) list"

definition uniquedict :: "('a, 'a) pydict \<Rightarrow> 'a \<Rightarrow> nat \<times> ('a, 'a) pydict" where
  "uniquedict l e =
     (let h = py_hash_str e
      in case map_of l h of
           Some (i, _) \<Rightarrow> (i, l)
         | None \<Rightarrow> (length l, l @ [(h, (length l, e))]))"

text \<open>\<open>r.insert(i, v)\<close> puts \<open>v\<close> before position \<open>i\<close>, at the end when \<open>i\<close> is beyond it.\<close>

definition list_insert :: "nat \<Rightarrow> 'a \<Rightarrow> 'a list \<Rightarrow> 'a list" where
  "list_insert i v r = take i r @ v # drop i r"

definition dict2list :: "('k, 'a) pydict \<Rightarrow> 'a list" where
  "dict2list l = fold (\<lambda>(k, (i, v)) r. list_insert i v r) l []"

type_synonym color = "rat list"
type_synonym uv = "rat \<times> rat"
type_synonym skin = "(int \<times> int) list"
type_synonym asset = "nat \<times> byte list"

text \<open>A bone is the list \<open>[parent, name strid, pos vertexid, ori vertexid]\<close>.\<close>

record bone =
  b_parent :: int
  b_name :: nat
  b_pos :: nat
  b_ori :: nat

text \<open>The seven dicts before line 775, and the seven lists after line 781.\<close>

record pools =
  p_cmap :: "(color, color) pydict"
  p_strs :: "(string, string) pydict"
  p_verts :: "(vertex, vertex) pydict"
  p_tmaps :: "(uv, uv) pydict"
  p_bones :: "(string, bone) pydict"
  p_skins :: "(skin, skin) pydict"
  p_inlined :: "(asset, asset) pydict"

record tables =
  t_cmap :: "color list"
  t_strs :: "string list"
  t_verts :: "vertex list"
  t_tmaps :: "uv list"
  t_bones :: "bone list"
  t_skins :: "skin list"
  t_inlined :: "asset list"

definition convert_pools :: "pools \<Rightarrow> tables" where
  "convert_pools P =
     \<lparr>t_cmap = dict2list (p_cmap P), t_strs = dict2list (p_strs P),
      t_verts = dict2list (p_verts P), t_tmaps = dict2list (p_tmaps P),
      t_bones = dict2list (p_bones P), t_skins = dict2list (p_skins P),
      t_inlined = dict2list (p_inlined P)\<rparr>"

subsection \<open>The texture map sections of the two writers\<close>

datatype report = UVOutOfRange

definition uv_out_of_range :: "uv \<Rightarrow> bool" where
  "uv_out_of_range t = (fst t < 0 \<or> fst t > 1 \<or> snd t < 0 \<or> snd t > 1)"

text \<open>Lines 891-898 of the textual writer: four assignments into the list \<open>t\<close>, which
  is the entry of \<open>tmaps\<close> itself.\<close>

definition clamp_uv_inplace :: "uv \<Rightarrow> uv" where
  "clamp_uv_inplace t =
     (let t1 = (if fst t > 1 then (1, snd t) else t);
          t2 = (if fst t1 < 0 then (0, snd t1) else t1);
          t3 = (if snd t2 > 1 then (fst t2, 1) else t2);
          t4 = (if snd t3 < 0 then (fst t3, 0) else t3)
      in t4)"

text \<open>
  The loop of lines 885-899. \<open>fstr\<close> is Python's \<open>str\<close> on a float. The result is the
  table as the loop leaves it, the text appended to \<open>s\<close>, and the reports made; \<open>r\<close>
  is the flag that lets the report be made once.
\<close>

fun ascii_textmap_loop ::
  "float_ops \<Rightarrow> (rat \<Rightarrow> string) \<Rightarrow> nat \<Rightarrow> bool \<Rightarrow> uv list \<Rightarrow> bool
     \<Rightarrow> uv list \<times> string \<times> report list" where
  "ascii_textmap_loop F fstr digits allow_unnormalized_uvs [] r = ([], [], [])"
| "ascii_textmap_loop F fstr digits allow_unnormalized_uvs (t # ts) r =
     (let bad = (uv_out_of_range t \<and> \<not> allow_unnormalized_uvs);
          rep = (if bad \<and> r then [UVOutOfRange] else []);
          r1 = (if bad then False else r);
          t1 = (if bad then clamp_uv_inplace t else t);
          line = fstr (f_round F (fst t1) digits) @ '' '' @
                 fstr (f_round F (snd t1) digits) @ [CHR 0x0D, CHR 0x0A];
          (ts', s, reps) = ascii_textmap_loop F fstr digits allow_unnormalized_uvs ts r1
      in (t1 # ts', line @ s, rep @ reps))"

text \<open>
  The loop of lines 1031-1045 of the binary writer. Here the clamped pair is a new list
  bound to the loop variable (line 1037): the entry of \<open>tmaps\<close> stays as it is.
  \<open>pack_f\<close> and \<open>pack_d\<close> are \<open>pack("<f", x)\<close> and \<open>pack("<d", x)\<close>.
\<close>

definition pack_uv ::
  "float_ops \<Rightarrow> (rat \<Rightarrow> byte list) \<Rightarrow> (rat \<Rightarrow> byte list) \<Rightarrow> int \<Rightarrow> uv
     \<Rightarrow> error + byte list" where
  "pack_uv F pack_f pack_d use_quality t =
     (if use_quality = 0 then
        (case pack_B (py_int (f_mul F (fst t) 255)) of Inl e \<Rightarrow> Inl e | Inr a \<Rightarrow>
         case pack_B (py_int (f_mul F (snd t) 255)) of Inl e \<Rightarrow> Inl e | Inr b \<Rightarrow> Inr (a @ b))
      else if use_quality = 1 then
        (case pack_H (py_int (f_mul F (fst t) 65535)) of Inl e \<Rightarrow> Inl e | Inr a \<Rightarrow>
         case pack_H (py_int (f_mul F (snd t) 65535)) of Inl e \<Rightarrow> Inl e | Inr b \<Rightarrow> Inr (a @ b))
      else if use_quality = 3 then Inr (pack_d (fst t) @ pack_d (snd t))
      else Inr (pack_f (fst t) @ pack_f (snd t)))"

fun binary_tmap_loop ::
  "float_ops \<Rightarrow> (rat \<Rightarrow> byte list) \<Rightarrow> (rat \<Rightarrow> byte list) \<Rightarrow> int \<Rightarrow> bool \<Rightarrow> uv list
     \<Rightarrow> bool \<Rightarrow> error + uv list \<times> byte list \<times> report list" where
  "binary_tmap_loop F pack_f pack_d use_quality allow_unnormalized_uvs [] r = Inr ([], [], [])"
| "binary_tmap_loop F pack_f pack_d use_quality allow_unnormalized_uvs (t # ts) r =
     (let bad = (uv_out_of_range t \<and> \<not> allow_unnormalized_uvs);
          rep = (if bad \<and> r then [UVOutOfRange] else []);
          r1 = (if bad then False else r);
          t_local = (if bad then (max (min (fst t) 1) 0, max (min (snd t) 1) 0) else t)
      in case pack_uv F pack_f pack_d use_quality t_local of
           Inl e \<Rightarrow> Inl e
         | Inr bs \<Rightarrow>
            (case binary_tmap_loop F pack_f pack_d use_quality allow_unnormalized_uvs ts r1 of
               Inl e \<Rightarrow> Inl e
             | Inr (ts', out, reps) \<Rightarrow> Inr (t # ts', bs @ out, rep @ reps)))"

text \<open>
  The tables after each writer. Every other statement of the two writers (lines
  853-981 and 983-1190) assigns a local name only (\<open>s\<close>, \<open>l\<close>, \<open>o\<close>, \<open>byte_list\<close>,
  \<open>buf\<close>, \<open>stridx\<close>, \<open>flags\<close> and the loop variables); the texture map loops are
  the only places that could store into an entry of a table.
\<close>

definition tables_after_ascii ::
  "float_ops \<Rightarrow> (rat \<Rightarrow> string) \<Rightarrow> nat \<Rightarrow> bool \<Rightarrow> tables \<Rightarrow> tables" where
  "tables_after_ascii F fstr digits allow_unnormalized_uvs T =
     (if length (t_tmaps T) > 0
      then T\<lparr>t_tmaps := fst (ascii_textmap_loop F fstr digits allow_unnormalized_uvs (t_tmaps T) True)\<rparr>
      else T)"

definition tables_after_binary ::
  "float_ops \<Rightarrow> (rat \<Rightarrow> byte list) \<Rightarrow> (rat \<Rightarrow> byte list) \<Rightarrow> int \<Rightarrow> bool \<Rightarrow> tables
     \<Rightarrow> error + tables" where
  "tables_after_binary F pack_f pack_d use_quality allow_unnormalized_uvs T =
     (if length (t_tmaps T) > 0
      then (case binary_tmap_loop F pack_f pack_d use_quality allow_unnormalized_uvs (t_tmaps T) True of
              Inl e \<Rightarrow> Inl e
            | Inr (ts', out, reps) \<Rightarrow> Inr (T\<lparr>t_tmaps := ts'\<rparr>))
      else Inr T)"

text \<open>From the conversion to the end of the writer: grid compression (lines 816-843)
  works on the converted vertex list, then one of the writers runs.\<close>

definition tables_after_export ::
  "float_ops \<Rightarrow> bool \<Rightarrow> bool \<Rightarrow> rat \<Rightarrow> nat \<Rightarrow> int \<Rightarrow> bool \<Rightarrow> (rat \<Rightarrow> string) \<Rightarrow>
   (rat \<Rightarrow> byte list) \<Rightarrow> (rat \<Rightarrow> byte list) \<Rightarrow> tables \<Rightarrow> error + tables" where
  "tables_after_export F use_ascii use_gridcompress use_scale digits use_quality
       allow_unnormalized_uvs fstr pack_f pack_d T =
     (let T1 = T\<lparr>t_verts := fst (normalize_coordinates F use_gridcompress use_scale digits (t_verts T))\<rparr>
      in if use_ascii = True
         then Inr (tables_after_ascii F fstr digits allow_unnormalized_uvs T1)
         else tables_after_binary F pack_f pack_d use_quality allow_unnormalized_uvs T1)"

subsection \<open>Materials (lines 59-82 and 567-652)\<close>

text \<open>The table \<open>mat_property_map\<close>, in its order: property code, value format, the
  attribute of the shader wrapper, the keyword of the textual format.\<close>

definition mat_property_map :: "(nat \<times> string \<times> string \<times> string) list" where
  "mat_property_map =
     [(0, ''color'', ''base_color'', ''Kd''),
      (1, ''gscale'', ''metallic'', ''Ka''),
      (2, ''gscale'', ''specular'', ''Ks''),
      (3, ''color'', ''specular_tint'', ''Ns''),
      (4, ''//color'', ''emissive'', ''Ke''),
      (5, ''gscale'', ''transmission'', ''Tf''),
      (6, ''float'', ''normalmap_strength'', ''Km''),
      (7, ''float'', ''alpha'', ''d''),
      (8, ''//byte'', ''illumination'', ''il''),
      (64, ''float'', ''roughness'', ''Pr''),
      (65, ''float'', ''metallic'', ''Pm''),
      (66, ''//float'', ''sheen'', ''Ps''),
      (67, ''float'', ''ior'', ''Ni''),
      (128, ''map'', ''base_color_texture'', ''map_Kd''),
      (130, ''//map'', ''specular_texture'', ''map_Ks''),
      (133, ''map'', ''transmission_texture'', ''map_Tf''),
      (134, ''map'', ''normalmap_texture'', ''map_Km''),
      (135, ''map'', ''alpha_texture'', ''map_D''),
      (192, ''map'', ''roughness_texture'', ''map_Pr''),
      (193, ''map'', ''metallic_texture'', ''map_Pm''),
      (195, ''map'', ''ior_texture'', ''map_Ni'')]"

text \<open>
  The host's objects. An image has a name and the bytes \<open>get_texturedata\<close> (lines
  240-270) finds for it when textures are inlined. The shader wrapper is an object
  whose attributes are read by name: a number, a sequence of numbers, or a texture
  with an optional image; \<open>getattr(mat_wrap, name, None)\<close> is the lookup itself.
\<close>

record image =
  img_name :: string
  img_payload :: "byte list"

datatype pyval = VFloat rat | VSeq "rat list" | VTex "image option"

type_synonym wrapper = "string \<Rightarrow> pyval option"

record node =
  n_type :: string
  n_image :: "image option"

text \<open>A material: its name, the nodes of its node tree if it has one, and its shader
  wrapper (\<open>None\<close> when \<open>if mat_wrap\<close> fails).\<close>

record material =
  m_name :: string
  m_nodes :: "node list option"
  m_wrap :: "wrapper option"

definition get_texturedata :: "image \<Rightarrow> bool \<Rightarrow> byte list" where
  "get_texturedata im use_inline = (if use_inline then img_payload im else [])"

text \<open>A direct attribute read such as \<open>mat_wrap.alpha\<close>. The reads of the source are
  of numbers (\<open>alpha\<close>, \<open>specular\<close>, \<open>metallic\<close>) and of one sequence (\<open>base_color\<close>).\<close>

definition attr_float :: "wrapper \<Rightarrow> string \<Rightarrow> error + rat" where
  "attr_float w name =
     (case w name of None \<Rightarrow> Inl AttributeError | Some (VFloat x) \<Rightarrow> Inr x
      | Some _ \<Rightarrow> Inl TypeError)"

definition attr_seq :: "wrapper \<Rightarrow> string \<Rightarrow> error + rat list" where
  "attr_seq w name =
     (case w name of None \<Rightarrow> Inl AttributeError | Some (VSeq c) \<Rightarrow> Inr c
      | Some _ \<Rightarrow> Inl TypeError)"

text \<open>\<open>safestr(name)\<close> with \<open>morelines = 0\<close> (lines 138-139). A string of the model is
  a list of characters with code points below 256; \<open>str.strip()\<close> removes the white
  space of Unicode, which below 256 is the following.\<close>

definition py_isspace :: "char \<Rightarrow> bool" where
  "py_isspace c = (c \<in> set [CHR '' '', CHR 0x09, CHR 0x0A, CHR 0x0B, CHR 0x0C, CHR 0x0D,
                              CHR 0x1C, CHR 0x1D, CHR 0x1E, CHR 0x1F, CHR 0x85, CHR 0xA0])"

definition py_strip :: "string \<Rightarrow> string" where
  "py_strip s = rev (dropWhile py_isspace (rev (dropWhile py_isspace s)))"

definition safestr :: "string \<Rightarrow> string" where
  "safestr name =
     py_strip (map (\<lambda>c. if c = CHR 0x0A then CHR '' '' else c)
       (filter (\<lambda>c. c \<noteq> CHR 0x0D)
         (map (\<lambda>c. if c = CHR '' '' \<or> c = CHR ''/'' \<or> c = CHR 0x5C then CHR ''_'' else c) name)))"

text \<open>
  \<open>props\<close> is a dict from the property code to \<open>[code, value]\<close>; the value is an index
  into the colour or string table, a number, or the illumination byte. Assigning to a
  key that is present keeps its place.
\<close>

datatype propval = PRef nat | PFloat rat | PByte int

fun dict_set :: "'k \<Rightarrow> 'v \<Rightarrow> ('k \<times> 'v) list \<Rightarrow> ('k \<times> 'v) list" where
  "dict_set k v [] = [(k, v)]"
| "dict_set k v ((k', v') # d) = (if k' = k then (k, v) # d else (k', v') # dict_set k v d)"

record matstate =
  ms_cmap :: "(color, color) pydict"
  ms_strs :: "(string, string) pydict"
  ms_inlined :: "(asset, asset) pydict"
  ms_props :: "(nat \<times> propval) list"
  ms_d :: "rat option"

definition set_color_prop :: "nat \<Rightarrow> color \<Rightarrow> matstate \<Rightarrow> matstate" where
  "set_color_prop key c st =
     (let (i, cm) = uniquedict (ms_cmap st) c
      in st\<lparr>ms_cmap := cm, ms_props := dict_set key (PRef i) (ms_props st)\<rparr>)"

definition set_texture_prop :: "bool \<Rightarrow> nat \<Rightarrow> image \<Rightarrow> matstate \<Rightarrow> matstate" where
  "set_texture_prop use_inline key im st =
     (let data = get_texturedata im use_inline;
          (s, strs1) = uniquedict (ms_strs st) (img_name im);
          st1 = st\<lparr>ms_strs := strs1, ms_props := dict_set key (PRef s) (ms_props st)\<rparr>
      in if use_inline \<and> length data > 8
         then st1\<lparr>ms_inlined := snd (uniquedict (ms_inlined st1) (s, data))\<rparr>
         else st1)"

text \<open>Lines 590-600, the branch \<open>key == 0\<close>: \<open>d\<close> is bound here and read again at
  \<open>key == 8\<close>.\<close>

definition prop_kd :: "wrapper \<Rightarrow> matstate \<Rightarrow> error + matstate" where
  "prop_kd w st =
     (case attr_float w ''alpha'' of Inl e \<Rightarrow> Inl e | Inr alpha \<Rightarrow>
      case (if alpha \<noteq> 0 \<and> alpha \<noteq> 1 then Inr alpha
            else case attr_seq w ''base_color'' of Inl e \<Rightarrow> Inl e
                 | Inr bc \<Rightarrow> Inr (if bc \<noteq> [] \<and> length bc > 3 then bc ! 3 else 0)) of
        Inl e \<Rightarrow> Inl e
      | Inr d \<Rightarrow>
          if d \<noteq> 0 then
            (case attr_seq w ''base_color'' of Inl e \<Rightarrow> Inl e
             | Inr bc \<Rightarrow>
                 if length bc < 3 then Inl IndexError
                 else Inr (set_color_prop 0 [bc ! 0, bc ! 1, bc ! 2, d] (st\<lparr>ms_d := Some d\<rparr>)))
          else Inr (st\<lparr>ms_d := Some d\<rparr>))"

text \<open>Lines 601-616, the branch \<open>key == 8\<close>.\<close>

definition prop_il :: "wrapper \<Rightarrow> matstate \<Rightarrow> error + matstate" where
  "prop_il w st =
     (case attr_float w ''specular'' of Inl e \<Rightarrow> Inl e | Inr specular \<Rightarrow>
      case (if specular = 0 then Inr 1
            else case attr_float w ''metallic'' of Inl e \<Rightarrow> Inl e
                 | Inr metallic \<Rightarrow>
                     (case ms_d st of None \<Rightarrow> Inl NameError
                      | Some d \<Rightarrow>
                          Inr (if metallic \<noteq> 0 then (if d \<noteq> 1 then 6 else 3)
                               else if d \<noteq> 1 then 9 else 2))) of
        Inl e \<Rightarrow> Inl e
      | Inr il \<Rightarrow>
          Inr (if il \<noteq> (0 :: int)
               then st\<lparr>ms_props := dict_set 8 (PByte il) (ms_props st)\<rparr> else st))"

text \<open>
  Lines 620-646. A value of a kind the branch cannot use (\<open>len\<close> of a number, the
  image of a number) raises. The shader wrapper of the host gives a number for the
  attributes of format \<open>gscale\<close> and \<open>float\<close>; a sequence or a texture there would be
  stored by the source as it is, and the writer fails on it later (\<open>round\<close> of a list,
  a list times a float): the model reports this as \<open>TypeError\<close> at this place.
\<close>

definition prop_generic ::
  "bool \<Rightarrow> wrapper \<Rightarrow> nat \<Rightarrow> string \<Rightarrow> string \<Rightarrow> matstate \<Rightarrow> error + matstate" where
  "prop_generic use_inline w key kind attr st =
     (case w attr of
        None \<Rightarrow> Inr st
      | Some val \<Rightarrow>
          if key \<ge> 128 then
            (case val of
               VTex None \<Rightarrow> Inr st
             | VTex (Some im) \<Rightarrow>
                 if img_name im = [] then Inr st
                 else Inr (set_texture_prop use_inline key im st)
             | _ \<Rightarrow> Inl AttributeError)
          else if kind = ''gscale'' \<and> val \<noteq> VFloat 0 then
            (case val of VFloat x \<Rightarrow> Inr (set_color_prop key [x, x, x, 1] st)
             | _ \<Rightarrow> Inl TypeError)
          else if kind = ''color'' then
            (case val of
               VSeq c \<Rightarrow>
                 if length c = 3 then Inr (set_color_prop key [c ! 0, c ! 1, c ! 2, 1] st)
                 else if length c = 4 then Inr (set_color_prop key c st)
                 else Inr st
             | _ \<Rightarrow> Inl TypeError)
          else if kind = ''float'' \<and> val \<noteq> VFloat 0 then
            (case val of
               VFloat x \<Rightarrow> Inr (st\<lparr>ms_props := dict_set key (PFloat x) (ms_props st)\<rparr>)
             | _ \<Rightarrow> Inl TypeError)
          else if (kind = ''byte'' \<or> kind = ''int'') \<and> val \<noteq> VFloat 0 then
            (case val of
               VFloat x \<Rightarrow> Inr (st\<lparr>ms_props := dict_set key (PFloat x) (ms_props st)\<rparr>)
             | _ \<Rightarrow> Inl TypeError)
          else Inr st)"

text \<open>The body of \<open>for key, mat_wrap_key in mat_property_map.items()\<close>.\<close>

definition prop_step ::
  "bool \<Rightarrow> wrapper \<Rightarrow> nat \<times> string \<times> string \<times> string \<Rightarrow> matstate \<Rightarrow> error + matstate" where
  "prop_step use_inline w ent st =
     (case ent of (key, kind, attr, kw) \<Rightarrow>
        if key = 0 then
          (case prop_kd w st of Inl e \<Rightarrow> Inl e
           | Inr st1 \<Rightarrow> prop_generic use_inline w key kind attr st1)
        else if key = 8 then
          (case prop_il w st of Inl e \<Rightarrow> Inl e
           | Inr st1 \<Rightarrow> prop_generic use_inline w key kind attr st1)
        else if take 2 kind = ''//'' then Inr st
        else prop_generic use_inline w key kind attr st)"

fun prop_loop ::
  "bool \<Rightarrow> wrapper \<Rightarrow> (nat \<times> string \<times> string \<times> string) list \<Rightarrow> matstate \<Rightarrow> error + matstate" where
  "prop_loop use_inline w [] st = Inr st"
| "prop_loop use_inline w (ent # ents) st =
     (case prop_step use_inline w ent st of
        Inl e \<Rightarrow> Inl e
      | Inr st1 \<Rightarrow> prop_loop use_inline w ents st1)"

text \<open>Lines 577-585: the first image texture node with a named image gives property
  128.\<close>

fun node_texture :: "bool \<Rightarrow> node list \<Rightarrow> matstate \<Rightarrow> matstate" where
  "node_texture use_inline [] st = st"
| "node_texture use_inline (n # ns) st =
     (case n_image n of
        Some im \<Rightarrow>
          if n_type n = ''TEX_IMAGE'' \<and> img_name im \<noteq> []
          then set_texture_prop use_inline 128 im st
          else node_texture use_inline ns st
      | None \<Rightarrow> node_texture use_inline ns st)"

text \<open>The tables the material pass works on, and the list \<open>materials\<close> of pairs of a
  name index and a property dict.\<close>

record matexport =
  x_cmap :: "(color, color) pydict"
  x_strs :: "(string, string) pydict"
  x_inlined :: "(asset, asset) pydict"
  x_materials :: "(nat \<times> (nat \<times> propval) list) list"

text \<open>Lines 573-649 for one referenced material that is not \<open>None\<close>: the property
  dict of the material, with the tables as they are afterwards.\<close>

definition material_props :: "bool \<Rightarrow> material \<Rightarrow> matexport \<Rightarrow> error + matstate" where
  "material_props use_inline mat X =
     (let st0 = \<lparr>ms_cmap = x_cmap X, ms_strs = x_strs X, ms_inlined = x_inlined X,
                 ms_props = [], ms_d = None\<rparr>;
          st1 = (case m_nodes mat of None \<Rightarrow> st0 | Some ns \<Rightarrow> node_texture use_inline ns st0)
      in case m_wrap mat of
           None \<Rightarrow> Inr st1
         | Some w \<Rightarrow> prop_loop use_inline w mat_property_map st1)"

text \<open>Lines 650-652: the material is appended if it has at least one property.\<close>

definition export_material :: "bool \<Rightarrow> material \<Rightarrow> matexport \<Rightarrow> error + matexport" where
  "export_material use_inline mat X =
     (case material_props use_inline mat X of
        Inl e \<Rightarrow> Inl e
      | Inr st2 \<Rightarrow>
          if length (ms_props st2) > 0
          then (let (nm, strs1) = uniquedict (ms_strs st2) (safestr (m_name mat))
                in Inr \<lparr>x_cmap = ms_cmap st2, x_strs = strs1, x_inlined = ms_inlined st2,
                        x_materials = x_materials X @ [(nm, ms_props st2)]\<rparr>)
          else Inr \<lparr>x_cmap = ms_cmap st2, x_strs = ms_strs st2, x_inlined = ms_inlined st2,
                    x_materials = x_materials X\<rparr>)"

text \<open>Lines 568-572: the loop over the referenced materials.\<close>

fun export_materials ::
  "bool \<Rightarrow> bool \<Rightarrow> material option list \<Rightarrow> matexport \<Rightarrow> error + matexport" where
  "export_materials use_materials use_inline [] X = Inr X"
| "export_materials use_materials use_inline (m # ms) X =
     (if use_materials then
        (case m of
           None \<Rightarrow> export_materials use_materials use_inline ms X
         | Some mat \<Rightarrow>
             (case export_material use_inline mat X of
                Inl e \<Rightarrow> Inl e
              | Inr X1 \<Rightarrow> export_materials use_materials use_inline ms X1))
      else Inr X)"

text \<open>A wrapper whose numbers are all 0, whose colours are black and whose textures
  have no image.\<close>

definition zero_wrapper :: wrapper where
  "zero_wrapper = (\<lambda>n.
     if n \<in> set [''alpha'', ''specular'', ''metallic'', ''transmission'',
                  ''normalmap_strength'', ''roughness'', ''ior'']
     then Some (VFloat 0)
     else if n \<in> set [''base_color'', ''specular_tint''] then Some (VSeq [0, 0, 0])
     else if n \<in> set [''base_color_texture'', ''specular_texture'', ''transmission_texture'',
         ''normalmap_texture'', ''alpha_texture'', ''roughness_texture'', ''metallic_texture'',
         ''ior_texture''] then Some (VTex None)
     else None)"

subsection \<open>Skin weights of a vertex (lines 507-544)\<close>

text \<open>\<open>bones[name][0]\<close>: the index the bone got at line 398; \<open>None\<close> is the \<open>KeyError\<close>.\<close>

definition bone_index :: "(string, bone) pydict \<Rightarrow> string \<Rightarrow> nat option" where
  "bone_index bones name = map_option fst (map_of bones name)"

text \<open>The local names of the inner loop: the list \<open>skin\<close>, the sum \<open>w\<close> of the bytes
  appended so far, the largest rounded weight \<open>wm\<close> and its position \<open>si\<close>. \<open>si\<close> is
  never initialised by the source: it keeps the value an earlier vertex left, or is
  unbound (\<open>None\<close>).\<close>

record skinacc =
  sk_skin :: skin
  sk_w :: int
  sk_wm :: int
  sk_si :: "nat option"

definition clamp_byte :: "int \<Rightarrow> int" where
  "clamp_byte s = (let s1 = (if s < 1 then 1 else s); s2 = (if s1 > 255 then 255 else s1) in s2)"

text \<open>
  Lines 514-532. A group of the vertex is given by the name of its vertex group
  (\<open>vg[g.group].name\<close>) and its weight. The second component of the result tells
  whether the loop was left through the \<open>except\<close> branch: a group that names no bone.
\<close>

fun skin_loop ::
  "float_ops \<Rightarrow> (string, bone) pydict \<Rightarrow> rat \<Rightarrow> (string \<times> rat) list \<Rightarrow> skinacc
     \<Rightarrow> skinacc \<times> bool" where
  "skin_loop F bones wsum [] a = (a, False)"
| "skin_loop F bones wsum (g # gs) a =
     (let s = py_round (f_mul F (f_div F (snd g) wsum) 255);
          a1 = (if s > sk_wm a then a\<lparr>sk_wm := s, sk_si := Some (length (sk_skin a))\<rparr> else a);
          s2 = clamp_byte s
      in case bone_index bones (fst g) of
           None \<Rightarrow> (a1, True)
         | Some b \<Rightarrow>
             skin_loop F bones wsum gs
               (a1\<lparr>sk_skin := sk_skin a1 @ [(int b, s2)], sk_w := sk_w a1 + s2\<rparr>))"

text \<open>Lines 533-537: \<open>skin[si][1] += 255 - w\<close> inside \<open>try\<close>; an unbound \<open>si\<close> or one
  beyond the list is caught and changes nothing.\<close>

definition skin_adjust :: "skinacc \<Rightarrow> skin" where
  "skin_adjust a =
     (if sk_w a \<noteq> 255 then
        (case sk_si a of
           None \<Rightarrow> sk_skin a
         | Some i \<Rightarrow>
             if i < length (sk_skin a)
             then (sk_skin a)[i := (fst (sk_skin a ! i), snd (sk_skin a ! i) + (255 - sk_w a))]
             else sk_skin a)
      else sk_skin a)"

text \<open>What the vertex loop carries from one vertex to the next.\<close>

record skinstate =
  ss_use_skeleton :: bool
  ss_vg :: "string list"
  ss_skins :: "(skin, skin) pydict"
  ss_nb_m :: nat
  ss_si :: "nat option"

text \<open>Lines 508-510: the sum of the weights, added one after the other.\<close>

definition weight_sum :: "float_ops \<Rightarrow> (string \<times> rat) list \<Rightarrow> rat" where
  "weight_sum F groups = fold (\<lambda>g wsum. f_add F wsum (snd g)) groups 0"

text \<open>Lines 507-544 for one vertex: the skin index \<open>s\<close> of the vertex (-1: no skin)
  and the state afterwards.\<close>

definition vertex_skin ::
  "float_ops \<Rightarrow> (string, bone) pydict \<Rightarrow> (string \<times> rat) list \<Rightarrow> skinstate
     \<Rightarrow> int \<times> skinstate" where
  "vertex_skin F bones groups S =
     (if ss_use_skeleton S \<and> length (ss_vg S) > 0 \<and> length groups > 0 then
        (let wsum = weight_sum F groups
         in if wsum > 0 then
              (let (a, broke) = skin_loop F bones wsum groups
                                  \<lparr>sk_skin = [], sk_w = 0, sk_wm = 0, sk_si = ss_si S\<rparr>;
                   S1 = (if broke then S\<lparr>ss_use_skeleton := False, ss_vg := []\<rparr> else S);
                   skin = skin_adjust a;
                   (s, skins1) = uniquedict (ss_skins S1) skin;
                   nb = (if length skin > ss_nb_m S1 then length skin else ss_nb_m S1)
               in (int s, S1\<lparr>ss_skins := skins1, ss_nb_m := nb, ss_si := sk_si a\<rparr>))
            else (- 1, S))
      else (- 1, S))"

text \<open>Of the options of the run, lines 507-544 assign \<open>use_skeleton\<close> (line 529) and no
  other: the options after one vertex. \<open>S\<close> is the rest of the state of the vertex loop.\<close>

definition options_after_vertex ::
  "float_ops \<Rightarrow> (string, bone) pydict \<Rightarrow> (string \<times> rat) list \<Rightarrow> skinstate \<Rightarrow> options
     \<Rightarrow> options" where
  "options_after_vertex F bones groups S opts =
     opts\<lparr>use_skeleton :=
            ss_use_skeleton (snd (vertex_skin F bones groups
                                    (S\<lparr>ss_use_skeleton := use_skeleton opts\<rparr>)))\<rparr>"

text \<open>The skin list the vertex gets, when it gets one.\<close>

definition vertex_weights ::
  "float_ops \<Rightarrow> (string, bone) pydict \<Rightarrow> (string \<times> rat) list \<Rightarrow> skinstate \<Rightarrow> skin" where
  "vertex_weights F bones groups S =
     skin_adjust (fst (skin_loop F bones (weight_sum F groups) groups
                         \<lparr>sk_skin = [], sk_w = 0, sk_wm = 0, sk_si = ss_si S\<rparr>))"

text \<open>Example data: \<open>n\<close> bones named \<open>b\<close>, \<open>bb\<close>, \<open>bbb\<close>, ... in this order, and a
  vertex in the groups of the first \<open>k + z\<close> of them, with weight 1 in the first \<open>k\<close>
  and weight 0 in the other \<open>z\<close>.\<close>

definition example_bones :: "nat \<Rightarrow> (string, bone) pydict" where
  "example_bones n =
     map (\<lambda>i. (replicate (Suc i) CHR ''b'',
               (i, \<lparr>b_parent = - 1, b_name = i, b_pos = 0, b_ori = 1\<rparr>))) [0..<n]"

definition example_groups :: "nat \<Rightarrow> nat \<Rightarrow> (string \<times> rat) list" where
  "example_groups k z =
     map (\<lambda>i. (replicate (Suc i) CHR ''b'', if i < k then 1 else 0)) [0..<k + z]"

subsection \<open>Animation frames of an action (lines 704-756)\<close>

text \<open>
  A pose bone as the host gives it at a sampled frame: its name and the translation
  \<open>p\<close> and the normalised quaternion \<open>q = (x, y, z, w)\<close> of its matrix (in model space
  or relative to its parent, lines 725-731).
\<close>

record posebone =
  pb_name :: string
  pb_p :: "rat \<times> rat \<times> rat"
  pb_q :: "rat \<times> rat \<times> rat \<times> rat"

text \<open>An entry of a frame: bone index, position vertex index, orientation vertex index.\<close>

type_synonym delta = "nat \<times> nat \<times> nat"

text \<open>Lines 733-741: both transforms are rounded and interned in the vertex pool.\<close>

definition pose_refs ::
  "float_ops \<Rightarrow> nat \<Rightarrow> posebone \<Rightarrow> (vertex, vertex) pydict
     \<Rightarrow> nat \<times> nat \<times> (vertex, vertex) pydict" where
  "pose_refs F digits b verts =
     (let (pos, verts1) = uniquedict verts
            (vert (f_round F (fst (pb_p b)) digits) (f_round F (fst (snd (pb_p b))) digits)
                  (f_round F (snd (snd (pb_p b))) digits) 1 0 (- 1));
          (ori, verts2) = uniquedict verts1
            (vert (f_round F (fst (pb_q b)) digits) (f_round F (fst (snd (pb_q b))) digits)
                  (f_round F (fst (snd (snd (pb_q b)))) digits)
                  (f_round F (snd (snd (snd (pb_q b)))) digits) 0 (- 2))
      in (pos, ori, verts2))"

text \<open>\<open>lastpose\<close> is a dict from the bone name to \<open>[pos, ori]\<close>, filled from the bind
  pose at lines 706-708.\<close>

definition bind_pose :: "(string, bone) pydict \<Rightarrow> string \<Rightarrow> (nat \<times> nat) option" where
  "bind_pose bones = fold (\<lambda>(n, (idx, b)) m. m(n \<mapsto> (b_pos b, b_ori b))) bones Map.empty"

record animstate =
  an_verts :: "(vertex, vertex) pydict"
  an_lastpose :: "string \<Rightarrow> (nat \<times> nat) option"
  an_changed :: "delta list"

text \<open>Lines 733-745 for a pose bone whose index \<open>idx\<close> was found.\<close>

definition bone_delta ::
  "float_ops \<Rightarrow> nat \<Rightarrow> nat \<Rightarrow> posebone \<Rightarrow> animstate \<Rightarrow> error + animstate" where
  "bone_delta F digits idx b st =
     (case pose_refs F digits b (an_verts st) of (pos, ori, verts2) \<Rightarrow>
      case an_lastpose st (pb_name b) of
        None \<Rightarrow> Inl KeyError
      | Some (lp, lo) \<Rightarrow>
          if lp \<noteq> pos \<or> lo \<noteq> ori
          then Inr (st\<lparr>an_verts := verts2,
                        an_lastpose := (an_lastpose st)(pb_name b \<mapsto> (pos, ori)),
                        an_changed := an_changed st @ [(idx, pos, ori)]\<rparr>)
          else Inr (st\<lparr>an_verts := verts2\<rparr>))"

text \<open>Lines 717-745: the pose bones of one armature; a name that is no bind-pose bone
  is reported and ends the loop over this armature.\<close>

fun armature_bones ::
  "float_ops \<Rightarrow> (string, bone) pydict \<Rightarrow> nat \<Rightarrow> posebone list \<Rightarrow> animstate
     \<Rightarrow> error + animstate" where
  "armature_bones F bones digits [] st = Inr st"
| "armature_bones F bones digits (b # bs) st =
     (case bone_index bones (pb_name b) of
        None \<Rightarrow> Inr st
      | Some idx \<Rightarrow>
          (case bone_delta F digits idx b st of
             Inl e \<Rightarrow> Inl e
           | Inr st1 \<Rightarrow> armature_bones F bones digits bs st1))"

text \<open>Lines 714-745: all armatures of the scene at one frame.\<close>

fun frame_armatures ::
  "float_ops \<Rightarrow> (string, bone) pydict \<Rightarrow> nat \<Rightarrow> posebone list list \<Rightarrow> animstate
     \<Rightarrow> error + animstate" where
  "frame_armatures F bones digits [] st = Inr st"
| "frame_armatures F bones digits (arm # arms) st =
     (case armature_bones F bones digits arm st of
        Inl e \<Rightarrow> Inl e
      | Inr st1 \<Rightarrow> frame_armatures F bones digits arms st1)"

text \<open>The state of the frame loop: the vertex pool, \<open>lastpose\<close>, the recorded
  \<open>frames\<close>, \<open>a[2]\<close>, \<open>lf\<close> and \<open>fi_m\<close>.\<close>

record actstate =
  ac_verts :: "(vertex, vertex) pydict"
  ac_lastpose :: "string \<Rightarrow> (nat \<times> nat) option"
  ac_frames :: "(int \<times> delta list) list"
  ac_a2 :: int
  ac_lf :: int
  ac_fi_m :: nat

text \<open>Line 750: the time stamp \<open>int((frame - a[2]) * mpf)\<close> of a recorded frame; the
  difference of the two frame numbers is converted to a float and multiplied.\<close>

definition timestamp :: "float_ops \<Rightarrow> rat \<Rightarrow> int \<Rightarrow> int \<Rightarrow> int" where
  "timestamp F mpf origin frame = py_int (f_mul F (f_of_int F (frame - origin)) mpf)"

text \<open>Lines 711-753, the body of \<open>for frame in range(a[2], a[3] + 1)\<close>. \<open>pose frame\<close>
  are the pose bones of the armatures after \<open>scene.frame_set(frame)\<close>.\<close>

definition frame_step ::
  "float_ops \<Rightarrow> (string, bone) pydict \<Rightarrow> nat \<Rightarrow> rat \<Rightarrow> (int \<Rightarrow> posebone list list) \<Rightarrow> int
     \<Rightarrow> actstate \<Rightarrow> error + actstate" where
  "frame_step F bones digits mpf pose frame st =
     (case frame_armatures F bones digits (pose frame)
             \<lparr>an_verts = ac_verts st, an_lastpose = ac_lastpose st, an_changed = []\<rparr> of
        Inl e \<Rightarrow> Inl e
      | Inr an \<Rightarrow>
          (let st1 = st\<lparr>ac_verts := an_verts an, ac_lastpose := an_lastpose an\<rparr>;
               changed = an_changed an
           in if length changed > 0 then
                (let a2 = (if length (ac_frames st1) < 1 then frame else ac_a2 st1)
                 in Inr (st1\<lparr>ac_a2 := a2,
                             ac_frames := ac_frames st1 @ [(timestamp F mpf a2 frame, changed)],
                             ac_lf := frame,
                             ac_fi_m := (if length changed > ac_fi_m st1 then length changed
                                         else ac_fi_m st1)\<rparr>))
              else Inr st1))"

fun frames_loop ::
  "float_ops \<Rightarrow> (string, bone) pydict \<Rightarrow> nat \<Rightarrow> rat \<Rightarrow> (int \<Rightarrow> posebone list list) \<Rightarrow> int list
     \<Rightarrow> actstate \<Rightarrow> error + actstate" where
  "frames_loop F bones digits mpf pose [] st = Inr st"
| "frames_loop F bones digits mpf pose (frame # fs) st =
     (case frame_step F bones digits mpf pose frame st of
        Inl e \<Rightarrow> Inl e
      | Inr st1 \<Rightarrow> frames_loop F bones digits mpf pose fs st1)"

text \<open>An exported action is \<open>[name strid, duration, frames]\<close>.\<close>

record animexport =
  ae_strs :: "(string, string) pydict"
  ae_verts :: "(vertex, vertex) pydict"
  ae_actions :: "(nat \<times> int \<times> (int \<times> delta list) list) list"
  ae_fi_m :: nat

text \<open>Line 659: \<open>mpf = 1000.0 / use_fps\<close>, the frame rate being an integer.\<close>

definition msec_per_frame :: "float_ops \<Rightarrow> int \<Rightarrow> rat" where
  "msec_per_frame F fps = f_div F 1000 (f_of_int F fps)"

text \<open>Lines 704-756 for one entry \<open>[name, pose index, start, end]\<close> of \<open>acts\<close>; \<open>pose\<close>
  gives the pose bones of the scene at every frame once the action is set.\<close>

definition export_action ::
  "float_ops \<Rightarrow> (string, bone) pydict \<Rightarrow> nat \<Rightarrow> int \<Rightarrow> (int \<Rightarrow> posebone list list)
     \<Rightarrow> string \<times> int \<times> int \<Rightarrow> animexport \<Rightarrow> error + animexport" where
  "export_action F bones digits fps pose a X =
     (case a of (name, a2, a3) \<Rightarrow>
        (let mpf = msec_per_frame F fps;
             st0 = \<lparr>ac_verts = ae_verts X, ac_lastpose = bind_pose bones, ac_frames = [],
                    ac_a2 = a2, ac_lf = 0, ac_fi_m = ae_fi_m X\<rparr>
         in case frames_loop F bones digits mpf pose [a2..a3] st0 of
              Inl e \<Rightarrow> Inl e
            | Inr st \<Rightarrow>
                if length (ac_frames st) > 0
                then (let (nm, strs1) = uniquedict (ae_strs X) (safestr name)
                      in Inr \<lparr>ae_strs = strs1, ae_verts = ac_verts st,
                              ae_actions = ae_actions X @
                                [(nm, py_int (f_mul F (f_of_int F (ac_lf st - ac_a2 st + 1)) mpf),
                                  ac_frames st)],
                              ae_fi_m = ac_fi_m st\<rparr>)
                else Inr \<lparr>ae_strs = ae_strs X, ae_verts = ac_verts st,
                          ae_actions = ae_actions X, ae_fi_m = ac_fi_m st\<rparr>))"


text \<open>Example data: two bones \<open>A\<close> and \<open>B\<close> at the origin with the identity
  orientation, and a scene in which only \<open>B\<close> moves, at frame 3.\<close>

definition two_bones :: "(string, bone) pydict" where
  "two_bones = [(''A'', (0, \<lparr>b_parent = - 1, b_name = 0, b_pos = 0, b_ori = 1\<rparr>)),
                (''B'', (1, \<lparr>b_parent = 0, b_name = 1, b_pos = 0, b_ori = 1\<rparr>))]"

definition two_bones_verts :: "(vertex, vertex) pydict" where
  "two_bones_verts =
     [(vert 0 0 0 1 0 (- 1), (0, vert 0 0 0 1 0 (- 1))),
      (vert 0 0 0 1 0 (- 2), (1, vert 0 0 0 1 0 (- 2)))]"

definition two_bones_pose :: "int \<Rightarrow> posebone list list" where
  "two_bones_pose frame =
     [[\<lparr>pb_name = ''A'', pb_p = (0, 0, 0), pb_q = (0, 0, 0, 1)\<rparr>,
       \<lparr>pb_name = ''B'', pb_p = (if frame < 3 then (0, 0, 0) else (1, 0, 0)), pb_q = (0, 0, 0, 1)\<rparr>]]"




subsection \<open>The actions stage (lines 656-758)\<close>

text \<open>
  \<open>acts\<close> is the list built at lines 660-692, each entry with the pose bones of the
  scene under that action, and \<open>opts\<close> holds the flags as they are at line 657. The
  loop of line 694 runs only if animation and skeleton export are both on at this
  point and there are bones; otherwise an error is reported (or nothing is done) and
  no action is exported.
\<close>

fun actions_loop ::
  "float_ops \<Rightarrow> (string, bone) pydict \<Rightarrow> nat \<Rightarrow> int \<Rightarrow>
   ((string \<times> int \<times> int) \<times> (int \<Rightarrow> posebone list list)) list \<Rightarrow> animexport
     \<Rightarrow> error + animexport" where
  "actions_loop F bones digits fps [] X = Inr X"
| "actions_loop F bones digits fps ((a, pose) # acts) X =
     (case export_action F bones digits fps pose a X of
        Inl e \<Rightarrow> Inl e
      | Inr X1 \<Rightarrow> actions_loop F bones digits fps acts X1)"

definition actions_stage ::
  "float_ops \<Rightarrow> options \<Rightarrow> (string, bone) pydict \<Rightarrow> nat \<Rightarrow>
   ((string \<times> int \<times> int) \<times> (int \<Rightarrow> posebone list list)) list \<Rightarrow> animexport
     \<Rightarrow> error + animexport" where
  "actions_stage F opts bones digits acts X =
     (if use_animation opts then
        (if use_skeleton opts \<and> length bones > 0
         then actions_loop F bones digits (use_fps opts) acts X
         else Inr X)
      else Inr X)"

section \<open>Theorems\<close>

lemma uint_byte_of_int: "uint (word_of_int v :: byte) = v mod 256"
  by (simp add: uint_word_of_int_eq take_bit_eq_mod)

lemma le_val_pack_B: "pack_B v = Inr bs \<Longrightarrow> le_val bs = v \<and> length bs = 1"
  by (auto simp: pack_B_def uint_byte_of_int split: if_splits)

lemma le_val_pack_H: "pack_H v = Inr bs \<Longrightarrow> le_val bs = v \<and> length bs = 2"
  by (auto simp: pack_H_def uint_byte_of_int split: if_splits)

lemma div_256_chain:
  fixes v :: int
  shows "v div 65536 = v div 256 div 256" and "v div 16777216 = v div 256 div 256 div 256"
proof -
  have "v div (256 * 256) = v div 256 div 256"
    by (rule zdiv_zmult2_eq) simp
  then show a: "v div 65536 = v div 256 div 256" by simp
  have "v div (65536 * 256) = v div 65536 div 256"
    by (rule zdiv_zmult2_eq) simp
  then show "v div 16777216 = v div 256 div 256 div 256" by (simp add: a)
qed

lemma le_chain4:
  fixes v :: int
  shows "v = m0 + 256 * a1 \<Longrightarrow> a1 = m1 + 256 * a2 \<Longrightarrow> a2 = m2 + 256 * a3
         \<Longrightarrow> m0 + 256 * (m1 + 256 * (m2 + 256 * a3)) = v"
  by simp

lemma le_val_pack_I: "pack_I v = Inr bs \<Longrightarrow> le_val bs = v \<and> length bs = 4"
proof -
  assume a: "pack_I v = Inr bs"
  then have r: "0 \<le> v" "v \<le> 4294967295"
    by (auto simp: pack_I_def split: if_splits)
  from a r have bs: "bs = [word_of_int v, word_of_int (v div 256),
                         word_of_int (v div 65536), word_of_int (v div 16777216)]"
    by (simp add: pack_I_def)
  define a1 where "a1 = v div 256"
  define a2 where "a2 = a1 div 256"
  define a3 where "a3 = a2 div 256"
  have e0: "v = v mod 256 + 256 * a1" by (simp add: a1_def)
  have e1: "a1 = a1 mod 256 + 256 * a2" by (simp add: a2_def)
  have e2: "a2 = a2 mod 256 + 256 * a3" by (simp add: a3_def)
  have "a3 < 256" "0 \<le> a3" using r by (auto simp: a3_def a2_def a1_def)
  then have e3: "a3 mod 256 = a3" by simp
  have "v mod 256 + 256 * (a1 mod 256 + 256 * (a2 mod 256 + 256 * (a3 mod 256))) = v"
    unfolding e3 by (rule le_chain4 [OF e0 e1 e2])
  then show ?thesis
    by (simp add: bs uint_byte_of_int div_256_chain a1_def a2_def a3_def)
qed

subsection \<open>Quality tier and rounding digits\<close>

lemma select_quality_in_range:
  "0 \<le> q \<Longrightarrow> q \<le> 3 \<Longrightarrow> select_quality q n True = q"
  by (simp add: select_quality_def)

lemma quality_digits_low_tiers:
  "quality_digits 0 = 4 \<and> quality_digits 1 = 4 \<and> quality_digits 2 = 7"
  by (simp add: quality_digits_def)

text \<open>
  C1. The claim gives 15 rounding digits to tier 3. In the source the assignment
  \<open>digits = 15\<close> of the first \<open>if\<close> is overwritten by the \<open>else\<close> branch of the second,
  independent \<open>if\<close>: a run at tier 3, with or without grid compression and whatever
  the polygon count, rounds to 4 digits.
\<close>

theorem quality_digits_tier3:
  "select_quality 3 n g = 3 \<and> quality_digits (select_quality 3 n g) = 4"
  by (simp add: select_quality_def quality_digits_def)

subsection \<open>Index width selection\<close>

lemma addidx_length:
  "fmt \<le> 2 \<Longrightarrow> addidx fmt idx = Inr bs \<Longrightarrow> length bs = 2 ^ fmt"
proof -
  assume f: "fmt \<le> 2" and a: "addidx fmt idx = Inr bs"
  from f consider "fmt = 0" | "fmt = 1" | "fmt = 2" by linarith
  then show ?thesis
  proof cases
    case 1
    with a show ?thesis by (auto simp: addidx_def dest: le_val_pack_B)
  next
    case 2
    with a show ?thesis by (auto simp: addidx_def dest: le_val_pack_H)
  next
    case 3
    with a show ?thesis by (auto simp: addidx_def dest: le_val_pack_I)
  qed
qed

text \<open>
  C5. \<open>idxsize\<close> returns the width code 0, 1 or 2 (an index written with that code by
  \<open>addidx\<close> takes 1, 2 or 4 bytes) and the reserved code 3 exactly for the count 0
  (with code 3 \<open>addidx\<close> writes no byte at all). The six counts of the specification
  are evaluated at the end.
\<close>

theorem idxsize_widths:
  "(idxsize cnt = 3 \<longleftrightarrow> cnt = 0) \<and>
   (0 < cnt \<and> cnt < 254 \<longrightarrow>
      idxsize cnt = 0 \<and> (\<forall>idx bs. addidx (idxsize cnt) idx = Inr bs \<longrightarrow> length bs = 1)) \<and>
   (254 \<le> cnt \<and> cnt < 65534 \<longrightarrow>
      idxsize cnt = 1 \<and> (\<forall>idx bs. addidx (idxsize cnt) idx = Inr bs \<longrightarrow> length bs = 2)) \<and>
   (65534 \<le> cnt \<longrightarrow>
      idxsize cnt = 2 \<and> (\<forall>idx bs. addidx (idxsize cnt) idx = Inr bs \<longrightarrow> length bs = 4)) \<and>
   (cnt = 0 \<longrightarrow> addidx (idxsize cnt) idx = Inr []) \<and>
   idxsize 0 = 3 \<and> idxsize 1 = 0 \<and> idxsize 253 = 0 \<and>
   idxsize 254 = 1 \<and> idxsize 65533 = 1 \<and> idxsize 65534 = 2"
proof -
  have l0: "\<And>idx bs. addidx 0 idx = Inr bs \<Longrightarrow> length bs = 1"
    using addidx_length [of 0] by simp
  have l1: "\<And>idx bs. addidx 1 idx = Inr bs \<Longrightarrow> length bs = 2"
    using addidx_length [of 1] by simp
  have l2: "\<And>idx bs. addidx 2 idx = Inr bs \<Longrightarrow> length bs = 4"
    using addidx_length [of 2] by simp
  have c: "idxsize cnt = 3 \<longleftrightarrow> cnt = 0" by (simp add: idxsize_def)
  have r0: "0 < cnt \<and> cnt < 254 \<longrightarrow> idxsize cnt = 0" by (simp add: idxsize_def)
  have r1: "254 \<le> cnt \<and> cnt < 65534 \<longrightarrow> idxsize cnt = 1" by (simp add: idxsize_def)
  have r2: "65534 \<le> cnt \<longrightarrow> idxsize cnt = 2" by (simp add: idxsize_def)
  have z: "cnt = 0 \<longrightarrow> addidx (idxsize cnt) idx = Inr []"
    by (simp add: idxsize_def addidx_def)
  have e: "idxsize 0 = 3 \<and> idxsize 1 = 0 \<and> idxsize 253 = 0 \<and>
           idxsize 254 = 1 \<and> idxsize 65533 = 1 \<and> idxsize 65534 = 2"
    by (simp add: idxsize_def)
  from c r0 r1 r2 z e l0 l1 l2 show ?thesis by metis
qed

theorem idxsize_widths_witness:
  "idxsize 200 = 0 \<and> idxsize 1000 = 1 \<and> idxsize 70000 = 2 \<and>
   addidx (idxsize 200) 7 = Inr [7] \<and> length [7 :: byte] = 1 \<and>
   addidx (idxsize 1000) 7 = Inr [7, 0] \<and> length [7 :: byte, 0] = 2 \<and>
   addidx (idxsize 70000) 7 = Inr [7, 0, 0, 0] \<and> length [7 :: byte, 0, 0, 0] = 4 \<and>
   addidx (idxsize 0) 7 = Inr []"
  using idxsize_widths [of 200 7] idxsize_widths [of 1000 7] idxsize_widths [of 70000 7]
    idxsize_widths [of 0 7]
  by (simp add: addidx_def pack_B_def pack_H_def pack_I_def)

subsection \<open>Index encoding\<close>




subsection \<open>Layout of the binary file\<close>

lemma finish_binary_total:
  "int (length (if c then z (buf @ bytes_of ''OMD3'') else buf @ bytes_of ''OMD3'')) + 8
     \<le> 4294967295 \<Longrightarrow> \<exists>file. finish_binary z c buf = Inr file"
  by (simp add: finish_binary_def Let_def pack_I_def)

text \<open>
  C9. Whenever the binary writer writes its file, the file is the magic \<open>3DMO\<close>, the
  4-byte little-endian length of the whole file, and the chunk buffer, compressed or
  raw; the buffer before compression is the chunk stream followed directly by the four
  bytes \<open>OMD3\<close>, which are its last four bytes. \<open>unz\<close> is any inverse of the
  compressor. The file is written whenever its length fits 32 bits.
\<close>

theorem binary_file_layout:
  assumes inv: "\<And>x. unz (z x) = x"
    and fin: "finish_binary z c buf = Inr file"
  shows "take 4 file = bytes_of ''3DMO'' \<and>
         le_val (take 4 (drop 4 file)) = int (length file) \<and>
         (if c then unz (drop 8 file) else drop 8 file) = buf @ bytes_of ''OMD3'' \<and>
         (let raw = (if c then unz (drop 8 file) else drop 8 file)
          in drop (length raw - 4) raw = bytes_of ''OMD3'')"
proof -
  define buf2 where "buf2 = (if c then z (buf @ bytes_of ''OMD3'') else buf @ bytes_of ''OMD3'')"
  from fin obtain l where l: "pack_I (int (length buf2) + 8) = Inr l"
    and fl: "file = bytes_of ''3DMO'' @ l @ buf2"
    by (auto simp: finish_binary_def Let_def buf2_def split: sum.splits)
  from le_val_pack_I [OF l] have ll: "length l = 4" and lv: "le_val l = int (length buf2) + 8"
    by simp_all
  have m: "length (bytes_of ''3DMO'') = 4" by (simp add: bytes_of_def)
  have t: "take 4 file = bytes_of ''3DMO''" by (simp add: fl m)
  have d4: "drop 4 file = l @ buf2" by (simp add: fl m)
  have d8: "drop 8 file = buf2" by (simp add: fl m ll)
  have len: "le_val (take 4 (drop 4 file)) = int (length file)"
    by (simp add: d4 ll lv) (simp add: fl m ll)
  have raw: "(if c then unz (drop 8 file) else drop 8 file) = buf @ bytes_of ''OMD3''"
    by (simp add: d8 buf2_def inv)
  have "length (bytes_of ''OMD3'') = 4" by (simp add: bytes_of_def)
  then have e: "drop (length (buf @ bytes_of ''OMD3'') - 4) (buf @ bytes_of ''OMD3'') = bytes_of ''OMD3''"
    by simp
  from t len raw e show ?thesis by (simp add: Let_def)
qed

theorem binary_file_layout_witness:
  "finish_binary (\<lambda>x. 120 # 218 # x) True [1, 2, 3]
     = Inr [51, 68, 77, 79, 17, 0, 0, 0, 120, 218, 1, 2, 3, 79, 77, 68, 51] \<and>
   drop 2 (drop 8 [51, 68, 77, 79, 17, 0, 0, 0, 120, 218, 1, 2, 3, 79, 77, 68, 51 :: byte])
     = [1, 2, 3] @ bytes_of ''OMD3'' \<and>
   le_val [17, 0, 0, 0] = 17"
proof -
  have f: "finish_binary (\<lambda>x. 120 # 218 # x) True [1, 2, 3]
     = Inr [51, 68, 77, 79, 17, 0, 0, 0, 120, 218, 1, 2, 3, 79, 77, 68, 51]"
    by (simp add: finish_binary_def Let_def pack_I_def bytes_of_def)
  have i: "\<And>x :: byte list. drop 2 ((\<lambda>x. 120 # 218 # x) x) = x" by simp
  from binary_file_layout [of "drop 2" "\<lambda>x. 120 # 218 # x", OF i f] f
  show ?thesis by simp
qed

subsection \<open>Grid compression\<close>

lemma extent_step_fields:
  "min_x (extent_step v e) = min (v_x v) (min_x e)"
  "max_x (extent_step v e) = max (v_x v) (max_x e)"
  "min_y (extent_step v e) = min (v_y v) (min_y e)"
  "max_y (extent_step v e) = max (v_y v) (max_y e)"
  "min_z (extent_step v e) = min (v_z v) (min_z e)"
  "max_z (extent_step v e) = max (v_z v) (max_z e)"
  by (simp_all add: extent_step_def Let_def min_def max_def)

lemma fold_extent_step:
  "min_x (fold extent_step vl e) = fold min (map v_x vl) (min_x e)"
  "max_x (fold extent_step vl e) = fold max (map v_x vl) (max_x e)"
  "min_y (fold extent_step vl e) = fold min (map v_y vl) (min_y e)"
  "max_y (fold extent_step vl e) = fold max (map v_y vl) (max_y e)"
  "min_z (fold extent_step vl e) = fold min (map v_z vl) (min_z e)"
  "max_z (fold extent_step vl e) = fold max (map v_z vl) (max_z e)"
  by (induction vl arbitrary: e) (simp_all add: extent_step_fields)

lemma fold_min_Min:
  fixes b :: rat
  shows "fold min xs b = Min (set (b # xs))"
  by (simp only: Min.set_eq_fold)

lemma fold_max_Max:
  fixes b :: rat
  shows "fold max xs b = Max (set (b # xs))"
  by (simp only: Max.set_eq_fold)

lemma fold_min_le:
  fixes b :: rat
  shows "fold min xs b \<le> b" and "x \<in> set xs \<Longrightarrow> fold min xs b \<le> x"
  unfolding fold_min_Min by (rule Min_le; simp)+

lemma fold_max_ge:
  fixes b :: rat
  shows "b \<le> fold max xs b" and "x \<in> set xs \<Longrightarrow> x \<le> fold max xs b"
  unfolding fold_max_Max by (rule Max_ge; simp)+

lemma fold_min_cases:
  fixes b :: rat
  shows "fold min xs b = b \<or> fold min xs b \<in> set xs"
proof -
  have "Min (set (b # xs)) \<in> set (b # xs)" by (rule Min_in) simp_all
  then show ?thesis unfolding fold_min_Min by simp
qed

lemma fold_max_cases:
  fixes b :: rat
  shows "fold max xs b = b \<or> fold max xs b \<in> set xs"
proof -
  have "Max (set (b # xs)) \<in> set (b # xs)" by (rule Max_in) simp_all
  then show ?thesis unfolding fold_max_Max by simp
qed

text \<open>One axis: with the sentinels \<open>B\<close> and \<open>- B\<close> as starting values, the larger of
  the two absolute bounds is the largest absolute coordinate of a non-empty list.\<close>

lemma axis_bound:
  fixes B :: rat
  assumes "x \<in> set xs"
  shows "\<bar>x\<bar> \<le> max \<bar>fold min xs B\<bar> \<bar>fold max xs (- B)\<bar>"
proof -
  have "fold min xs B \<le> x" "x \<le> fold max xs (- B)"
    using assms by (rule fold_min_le(2), rule fold_max_ge(2))
  then show ?thesis by linarith
qed

lemma axis_attained:
  fixes B :: rat
  assumes B: "0 \<le> B" and ne: "xs \<noteq> []"
  shows "\<exists>x\<in>set xs. max \<bar>fold min xs B\<bar> \<bar>fold max xs (- B)\<bar> = \<bar>x\<bar>"
proof -
  from ne obtain y where y: "y \<in> set xs" by (cases xs) auto
  define lo where "lo = fold min xs B"
  define hi where "hi = fold max xs (- B)"
  have lo_y: "lo \<le> y" and y_hi: "y \<le> hi"
    using y by (simp_all add: lo_def hi_def fold_min_le(2) fold_max_ge(2))
  have lo_B: "lo \<le> B" and hi_B: "- B \<le> hi"
    by (simp_all add: lo_def hi_def fold_min_le(1) fold_max_ge(1))
  have lo_c: "lo = B \<or> lo \<in> set xs" unfolding lo_def by (rule fold_min_cases)
  have hi_c: "hi = - B \<or> hi \<in> set xs" unfolding hi_def by (rule fold_max_cases)
  show ?thesis unfolding lo_def [symmetric] hi_def [symmetric]
  proof (cases "\<bar>lo\<bar> \<le> \<bar>hi\<bar>")
    case True
    then have m: "max \<bar>lo\<bar> \<bar>hi\<bar> = \<bar>hi\<bar>" by simp
    from hi_c show "\<exists>x\<in>set xs. max \<bar>lo\<bar> \<bar>hi\<bar> = \<bar>x\<bar>"
    proof
      assume h: "hi = - B"
      with y_hi lo_y B True have "y = - B" by linarith
      with h m have "max \<bar>lo\<bar> \<bar>hi\<bar> = \<bar>y\<bar>" by simp
      with y show ?thesis by blast
    next
      assume "hi \<in> set xs"
      with m show ?thesis by auto
    qed
  next
    case False
    then have m: "max \<bar>lo\<bar> \<bar>hi\<bar> = \<bar>lo\<bar>" by simp
    from lo_c show "\<exists>x\<in>set xs. max \<bar>lo\<bar> \<bar>hi\<bar> = \<bar>x\<bar>"
    proof
      assume l: "lo = B"
      with lo_y y_hi B False have "False" by linarith
      then show ?thesis ..
    next
      assume "lo \<in> set xs"
      with m show ?thesis by auto
    qed
  qed
qed

lemma grid_scale_axes:
  "grid_scale verts =
     max (max \<bar>fold min (map v_x verts) (10 ^ 10)\<bar> \<bar>fold max (map v_x verts) (- (10 ^ 10))\<bar>)
      (max (max \<bar>fold min (map v_y verts) (10 ^ 10)\<bar> \<bar>fold max (map v_y verts) (- (10 ^ 10))\<bar>)
           (max \<bar>fold min (map v_z verts) (10 ^ 10)\<bar> \<bar>fold max (map v_z verts) (- (10 ^ 10))\<bar>))"
  by (simp add: grid_scale_def grid_extent_def Let_def fold_extent_step init_extent_def
      max.assoc)

lemma grid_scale_upper:
  assumes "v \<in> set verts"
  shows "\<bar>v_x v\<bar> \<le> grid_scale verts \<and> \<bar>v_y v\<bar> \<le> grid_scale verts \<and> \<bar>v_z v\<bar> \<le> grid_scale verts"
proof -
  have "v_x v \<in> set (map v_x verts)" "v_y v \<in> set (map v_y verts)" "v_z v \<in> set (map v_z verts)"
    using assms by simp_all
  from axis_bound [OF this(1), of "10 ^ 10"] axis_bound [OF this(2), of "10 ^ 10"]
    axis_bound [OF this(3), of "10 ^ 10"]
  show ?thesis unfolding grid_scale_axes by (simp add: le_max_iff_disj)
qed

lemma grid_scale_attained:
  assumes "verts \<noteq> []"
  shows "\<exists>v\<in>set verts. grid_scale verts = \<bar>v_x v\<bar> \<or> grid_scale verts = \<bar>v_y v\<bar>
           \<or> grid_scale verts = \<bar>v_z v\<bar>"
proof -
  have B: "(0::rat) \<le> 10 ^ 10" by simp
  from assms have ne: "map v_x verts \<noteq> []" "map v_y verts \<noteq> []" "map v_z verts \<noteq> []"
    by simp_all
  define ax where "ax = max \<bar>fold min (map v_x verts) (10 ^ 10)\<bar> \<bar>fold max (map v_x verts) (- (10 ^ 10))\<bar>"
  define ay where "ay = max \<bar>fold min (map v_y verts) (10 ^ 10)\<bar> \<bar>fold max (map v_y verts) (- (10 ^ 10))\<bar>"
  define az where "az = max \<bar>fold min (map v_z verts) (10 ^ 10)\<bar> \<bar>fold max (map v_z verts) (- (10 ^ 10))\<bar>"
  from axis_attained [OF B ne(1)] obtain v1 where v1: "v1 \<in> set verts" "ax = \<bar>v_x v1\<bar>"
    unfolding ax_def by auto
  from axis_attained [OF B ne(2)] obtain v2 where v2: "v2 \<in> set verts" "ay = \<bar>v_y v2\<bar>"
    unfolding ay_def by auto
  from axis_attained [OF B ne(3)] obtain v3 where v3: "v3 \<in> set verts" "az = \<bar>v_z v3\<bar>"
    unfolding az_def by auto
  have s: "grid_scale verts = max ax (max ay az)"
    unfolding grid_scale_axes ax_def ay_def az_def ..
  then have "grid_scale verts = ax \<or> grid_scale verts = ay \<or> grid_scale verts = az"
    by (simp add: max_def)
  with v1 v2 v3 show ?thesis by metis
qed

lemma grid_scale_nonneg: "0 \<le> grid_scale verts"
  by (simp add: grid_scale_def Let_def le_max_iff_disj)

lemma normalize_coordinates_gc:
  "normalize_coordinates F True use_scale digits verts =
     ((if grid_scale verts \<noteq> 1 \<and> grid_scale verts \<noteq> 0
       then map (rescale_vertex F (grid_scale verts) digits) verts else verts),
      (if use_scale \<le> 0 \<and> grid_scale verts \<le> 0 then 1
       else if use_scale \<le> 0 then grid_scale verts else use_scale))"
  by (simp add: normalize_coordinates_def Let_def)

text \<open>
  C2 as stated fails on the code. In a model whose position vertices all lie at the
  origin the extent of the position-kind vertices gives \<open>s = 0\<close>; with no output scale
  requested, the claim makes 0 the declared scale, and the code declares 1 (the guard
  of line 842).
\<close>

theorem declared_scale_counterexample:
  "spec_position_scale [\<lparr>v_x = 0, v_y = 0, v_z = 0, v_w = 1, v_color = 0, v_skin = - 1\<rparr>] = 0 \<and>
   grid_scale [\<lparr>v_x = 0, v_y = 0, v_z = 0, v_w = 1, v_color = 0, v_skin = - 1\<rparr>] = 0 \<and>
   normalize_coordinates double_ops True 0 4
     [\<lparr>v_x = 0, v_y = 0, v_z = 0, v_w = 1, v_color = 0, v_skin = - 1\<rparr>]
   = ([\<lparr>v_x = 0, v_y = 0, v_z = 0, v_w = 1, v_color = 0, v_skin = - 1\<rparr>], 1)"
  by (simp add: normalize_coordinates_gc spec_position_scale_def grid_scale_axes)

text \<open>
  The loop of lines 820-832 that computes the extent has no test of the skin index,
  unlike the loop of line 836 that rescales: an orientation quaternion in the table
  takes part in the extent. For the position \<open>(1/2, 0, 0)\<close> pooled beside the
  quaternion \<open>(1, 0, 0, 0)\<close> the code computes \<open>s = 1\<close> and rescales nothing, where the
  extent of the position-kind entries is \<open>1/2\<close>.
\<close>

lemma grid_scale_with_quaternion:
  "grid_scale [\<lparr>v_x = 1 / 2, v_y = 0, v_z = 0, v_w = 1, v_color = 0, v_skin = - 1\<rparr>,
               \<lparr>v_x = 1, v_y = 0, v_z = 0, v_w = 0, v_color = 0, v_skin = - 2\<rparr>] = 1 \<and>
   spec_position_scale [\<lparr>v_x = 1 / 2, v_y = 0, v_z = 0, v_w = 1, v_color = 0, v_skin = - 1\<rparr>,
               \<lparr>v_x = 1, v_y = 0, v_z = 0, v_w = 0, v_color = 0, v_skin = - 2\<rparr>] = 1 / 2 \<and>
   normalize_coordinates F True 0 4
     [\<lparr>v_x = 1 / 2, v_y = 0, v_z = 0, v_w = 1, v_color = 0, v_skin = - 1\<rparr>,
      \<lparr>v_x = 1, v_y = 0, v_z = 0, v_w = 0, v_color = 0, v_skin = - 2\<rparr>]
   = ([\<lparr>v_x = 1 / 2, v_y = 0, v_z = 0, v_w = 1, v_color = 0, v_skin = - 1\<rparr>,
       \<lparr>v_x = 1, v_y = 0, v_z = 0, v_w = 0, v_color = 0, v_skin = - 2\<rparr>], 1)"
  by (simp add: normalize_coordinates_gc spec_position_scale_def grid_scale_axes)

text \<open>
  C2, amended. With grid compression on, let \<open>s\<close> be the scale the code computes from
  the pooled vertex table. No x, y or z coordinate of a position-kind entry (skin
  index other than -2) exceeds \<open>s\<close> in absolute value, and for a non-empty table of
  position-kind entries only, \<open>s\<close> is the largest absolute x, y or z coordinate, that
  is \<open>max(|min|, |max|)\<close> over the three axes of their bounding extent. If \<open>s\<close> is neither
  0 nor 1, every position-kind entry has x, y and z replaced by
  \<open>round(x / s, digits)\<close>, computed in double arithmetic, its other fields staying as
  they are; quaternion entries are never changed; if \<open>s\<close> is 0 or 1 nothing is changed.
  The declared scale is the requested one when that is positive; otherwise it is \<open>s\<close>,
  or 1 when \<open>s\<close> is 0.
\<close>

theorem normalize_coordinates_gridcompress:
  assumes "normalize_coordinates F True use_scale digits verts = (verts', scale')"
    and "s = grid_scale verts"
  shows "(\<forall>v\<in>set verts. v_skin v \<noteq> - 2 \<longrightarrow> \<bar>v_x v\<bar> \<le> s \<and> \<bar>v_y v\<bar> \<le> s \<and> \<bar>v_z v\<bar> \<le> s) \<and>
         (verts \<noteq> [] \<and> (\<forall>v\<in>set verts. v_skin v \<noteq> - 2) \<longrightarrow>
            (\<exists>v\<in>set verts. s = \<bar>v_x v\<bar> \<or> s = \<bar>v_y v\<bar> \<or> s = \<bar>v_z v\<bar>)) \<and>
         length verts' = length verts \<and>
         (\<forall>i<length verts.
            (s \<noteq> 0 \<and> s \<noteq> 1 \<and> v_skin (verts ! i) \<noteq> - 2 \<longrightarrow>
               verts' ! i = (verts ! i)\<lparr>v_x := f_round F (f_div F (v_x (verts ! i)) s) digits,
                                        v_y := f_round F (f_div F (v_y (verts ! i)) s) digits,
                                        v_z := f_round F (f_div F (v_z (verts ! i)) s) digits\<rparr>) \<and>
            (v_skin (verts ! i) = - 2 \<longrightarrow> verts' ! i = verts ! i) \<and>
            (s = 0 \<or> s = 1 \<longrightarrow> verts' ! i = verts ! i)) \<and>
         scale' = (if 0 < use_scale then use_scale else if s = 0 then 1 else s)"
proof -
  have up: "\<forall>v\<in>set verts. v_skin v \<noteq> - 2 \<longrightarrow> \<bar>v_x v\<bar> \<le> s \<and> \<bar>v_y v\<bar> \<le> s \<and> \<bar>v_z v\<bar> \<le> s"
    unfolding assms(2) using grid_scale_upper by blast
  have ext: "verts \<noteq> [] \<and> (\<forall>v\<in>set verts. v_skin v \<noteq> - 2) \<longrightarrow>
            (\<exists>v\<in>set verts. s = \<bar>v_x v\<bar> \<or> s = \<bar>v_y v\<bar> \<or> s = \<bar>v_z v\<bar>)"
    unfolding assms(2) using grid_scale_attained by blast
  have "verts' = fst (normalize_coordinates F True use_scale digits verts)"
    by (simp add: assms(1))
  also have "\<dots> = (if s \<noteq> 1 \<and> s \<noteq> 0 then map (rescale_vertex F s digits) verts else verts)"
    by (simp add: normalize_coordinates_gc assms(2))
  finally have v': "verts' = (if s \<noteq> 1 \<and> s \<noteq> 0 then map (rescale_vertex F s digits) verts else verts)" .
  have s0: "0 \<le> s" unfolding assms(2) by (rule grid_scale_nonneg)
  have "scale' = snd (normalize_coordinates F True use_scale digits verts)"
    by (simp add: assms(1))
  also have "\<dots> = (if 0 < use_scale then use_scale else if s = 0 then 1 else s)"
    using s0 by (auto simp: normalize_coordinates_gc assms(2))
  finally have sc: "scale' = (if 0 < use_scale then use_scale else if s = 0 then 1 else s)" .
  have len: "length verts' = length verts" by (simp add: v')
  have el: "\<forall>i<length verts.
            (s \<noteq> 0 \<and> s \<noteq> 1 \<and> v_skin (verts ! i) \<noteq> - 2 \<longrightarrow>
               verts' ! i = (verts ! i)\<lparr>v_x := f_round F (f_div F (v_x (verts ! i)) s) digits,
                                        v_y := f_round F (f_div F (v_y (verts ! i)) s) digits,
                                        v_z := f_round F (f_div F (v_z (verts ! i)) s) digits\<rparr>) \<and>
            (v_skin (verts ! i) = - 2 \<longrightarrow> verts' ! i = verts ! i) \<and>
            (s = 0 \<or> s = 1 \<longrightarrow> verts' ! i = verts ! i)"
    by (simp add: v' rescale_vertex_def)
  from up ext len el sc show ?thesis by blast
qed

theorem normalize_coordinates_gridcompress_witness:
  "normalize_coordinates double_ops True 0 4
     [\<lparr>v_x = 1, v_y = - 4, v_z = 2, v_w = 1, v_color = 0, v_skin = - 1\<rparr>,
      \<lparr>v_x = dbl (1 / 1000), v_y = 0, v_z = 3, v_w = 1, v_color = 0, v_skin = - 1\<rparr>]
   = ([\<lparr>v_x = 1 / 4, v_y = - 1, v_z = 1 / 2, v_w = 1, v_color = 0, v_skin = - 1\<rparr>,
       \<lparr>v_x = dbl (3 / 10000), v_y = 0, v_z = 3 / 4, v_w = 1, v_color = 0, v_skin = - 1\<rparr>], 4) \<and>
   grid_scale [\<lparr>v_x = 1, v_y = - 4, v_z = 2, v_w = 1, v_color = 0, v_skin = - 1\<rparr>,
      \<lparr>v_x = dbl (1 / 1000), v_y = 0, v_z = 3, v_w = 1, v_color = 0, v_skin = - 1\<rparr>] = 4"
proof -
  define x where "x = dbl (1 / 1000)"
  have x: "0 \<le> x" "x \<le> 1" unfolding x_def by code_simp+
  have s: "grid_scale [\<lparr>v_x = 1, v_y = - 4, v_z = 2, v_w = 1, v_color = 0, v_skin = - 1\<rparr>,
      \<lparr>v_x = x, v_y = 0, v_z = 3, v_w = 1, v_color = 0, v_skin = - 1\<rparr>] = 4"
    using x by (simp add: grid_scale_axes)
  have r: "f_round double_ops (f_div double_ops 1 4) 4 = 1 / 4"
    "f_round double_ops (f_div double_ops (- 4) 4) 4 = - 1"
    "f_round double_ops (f_div double_ops 2 4) 4 = 1 / 2"
    "f_round double_ops (f_div double_ops 0 4) 4 = 0"
    "f_round double_ops (f_div double_ops 3 4) 4 = 3 / 4"
    "f_round double_ops (f_div double_ops x 4) 4 = dbl (3 / 10000)"
    unfolding x_def by code_simp+
  have n: "normalize_coordinates double_ops True 0 4
     [\<lparr>v_x = 1, v_y = - 4, v_z = 2, v_w = 1, v_color = 0, v_skin = - 1\<rparr>,
      \<lparr>v_x = x, v_y = 0, v_z = 3, v_w = 1, v_color = 0, v_skin = - 1\<rparr>]
   = ([\<lparr>v_x = 1 / 4, v_y = - 1, v_z = 1 / 2, v_w = 1, v_color = 0, v_skin = - 1\<rparr>,
       \<lparr>v_x = dbl (3 / 10000), v_y = 0, v_z = 3 / 4, v_w = 1, v_color = 0, v_skin = - 1\<rparr>], 4)"
    by (simp add: normalize_coordinates_gc s rescale_vertex_def r)
  from normalize_coordinates_gridcompress [OF n s [symmetric]] n s show ?thesis
    unfolding x_def by simp
qed

subsection \<open>Tables after the conversion\<close>

lemma dict2list_sequential:
  "fold (\<lambda>(k, (i, v)) r. list_insert i v r)
        (map (\<lambda>(j, k, v). (k, (length r0 + j, v))) (zip [0..<length kvs] kvs)) r0
   = r0 @ map snd kvs"
proof (induction kvs arbitrary: r0 rule: rev_induct)
  case Nil
  show ?case by simp
next
  case (snoc x xs)
  obtain k v where x: "x = (k, v)" by (cases x)
  show ?case
    by (simp add: x snoc.IH) (simp add: list_insert_def)
qed

lemma clamp_uv_inplace_id: "\<not> uv_out_of_range t \<Longrightarrow> clamp_uv_inplace t = t"
  by (cases t) (simp add: uv_out_of_range_def clamp_uv_inplace_def Let_def)

lemma ascii_textmap_loop_table:
  "fst (ascii_textmap_loop F fstr digits allow ts r) =
     map (\<lambda>t. if uv_out_of_range t \<and> \<not> allow then clamp_uv_inplace t else t) ts"
  by (induction ts arbitrary: r) (simp_all add: Let_def case_prod_beta)

lemma binary_tmap_loop_table:
  "binary_tmap_loop F pack_f pack_d q allow ts r = Inr (ts', out, reps) \<Longrightarrow> ts' = ts"
proof (induction ts arbitrary: r ts' out reps)
  case Nil
  then show ?case by simp
next
  case (Cons t ts)
  then show ?case
    by (auto simp: Let_def split: sum.splits prod.splits)
qed

lemma tables_after_ascii_frame:
  "tables_after_ascii F fstr digits allow T =
     T\<lparr>t_tmaps := map (\<lambda>t. if uv_out_of_range t \<and> \<not> allow then clamp_uv_inplace t else t)
                       (t_tmaps T)\<rparr>"
  by (simp add: tables_after_ascii_def ascii_textmap_loop_table)

lemma tables_after_binary_frame:
  "tables_after_binary F pack_f pack_d q allow T = Inr T' \<Longrightarrow> T' = T"
  by (auto simp: tables_after_binary_def split: if_splits sum.splits prod.splits
      dest: binary_tmap_loop_table)

text \<open>
  C4 as stated fails on the code: the textual writer clamps an out-of-range UV pair
  by assigning into the entry of the table. A pool holding the one pair \<open>(3/2, 1/2)\<close>
  is converted to the list \<open>[(3/2, 1/2)]\<close>, and after the textual writer the list is
  \<open>[(1, 1/2)]\<close>.
\<close>

theorem textmap_mutation_counterexample:
  "t_tmaps (convert_pools \<lparr>p_cmap = [], p_strs = [], p_verts = [],
              p_tmaps = [((3 / 2, 1 / 2), (0, (3 / 2, 1 / 2)))],
              p_bones = [], p_skins = [], p_inlined = []\<rparr>) = [(3 / 2, 1 / 2)] \<and>
   tables_after_export double_ops True False 1 7 2 False (\<lambda>x. []) (\<lambda>x. []) (\<lambda>x. [])
     (convert_pools \<lparr>p_cmap = [], p_strs = [], p_verts = [],
              p_tmaps = [((3 / 2, 1 / 2), (0, (3 / 2, 1 / 2)))],
              p_bones = [], p_skins = [], p_inlined = []\<rparr>)
   = Inr \<lparr>t_cmap = [], t_strs = [], t_verts = [], t_tmaps = [(1, 1 / 2)],
          t_bones = [], t_skins = [], t_inlined = []\<rparr>"
  by (simp add: tables_after_export_def tables_after_ascii_frame convert_pools_def
      dict2list_def list_insert_def normalize_coordinates_def uv_out_of_range_def
      clamp_uv_inplace_def Let_def)

text \<open>
  C4, amended. From the conversion to the end of either writer the colour, string,
  bone, skin and inlined asset lists stay as converted. The vertex list is changed by
  grid compression only (it is the converted list when grid compression is off), not by
  a writer. The UV list stays as converted under the binary writer; the textual writer
  replaces each out-of-range pair by its clamped value, unless unnormalised UVs are
  allowed, so that the UV list stays as converted when they are allowed or every pair
  lies in the unit square.
\<close>

theorem tables_after_export_frame:
  assumes "tables_after_export F use_ascii use_gridcompress use_scale digits use_quality
             allow fstr pack_f pack_d T = Inr T'"
  shows "t_cmap T' = t_cmap T \<and> t_strs T' = t_strs T \<and> t_bones T' = t_bones T \<and>
         t_skins T' = t_skins T \<and> t_inlined T' = t_inlined T \<and>
         t_verts T' = fst (normalize_coordinates F use_gridcompress use_scale digits (t_verts T)) \<and>
         (use_gridcompress = False \<longrightarrow> t_verts T' = t_verts T) \<and>
         (use_ascii = False \<longrightarrow> t_tmaps T' = t_tmaps T) \<and>
         (use_ascii = True \<longrightarrow>
            t_tmaps T' = map (\<lambda>t. if uv_out_of_range t \<and> \<not> allow
                                   then clamp_uv_inplace t else t) (t_tmaps T)) \<and>
         (allow \<or> (\<forall>t\<in>set (t_tmaps T). \<not> uv_out_of_range t) \<longrightarrow> t_tmaps T' = t_tmaps T)"
proof -
  define T1 where
    "T1 = T\<lparr>t_verts := fst (normalize_coordinates F use_gridcompress use_scale digits (t_verts T))\<rparr>"
  define cl where
    "cl = (\<lambda>t. if uv_out_of_range t \<and> \<not> allow then clamp_uv_inplace t else t)"
  have T': "T' = (if use_ascii then T1\<lparr>t_tmaps := map cl (t_tmaps T1)\<rparr> else T1)"
  proof (cases use_ascii)
    case True
    with assms show ?thesis
      by (simp add: tables_after_export_def T1_def [symmetric] tables_after_ascii_frame cl_def)
  next
    case False
    with assms have "tables_after_binary F pack_f pack_d use_quality allow T1 = Inr T'"
      by (simp add: tables_after_export_def T1_def [symmetric])
    from tables_after_binary_frame [OF this] False show ?thesis by simp
  qed
  have nog: "use_gridcompress = False \<longrightarrow>
      fst (normalize_coordinates F use_gridcompress use_scale digits (t_verts T)) = t_verts T"
    by (simp add: normalize_coordinates_def)
  have idm: "allow \<or> (\<forall>t\<in>set (t_tmaps T). \<not> uv_out_of_range t) \<longrightarrow> map cl (t_tmaps T) = t_tmaps T"
    by (auto simp: cl_def clamp_uv_inplace_id intro: map_idI)
  have f1: "t_cmap T' = t_cmap T \<and> t_strs T' = t_strs T \<and> t_bones T' = t_bones T \<and>
         t_skins T' = t_skins T \<and> t_inlined T' = t_inlined T"
    by (simp add: T' T1_def)
  have f2: "t_verts T' = fst (normalize_coordinates F use_gridcompress use_scale digits (t_verts T))"
    by (simp add: T' T1_def)
  have f3: "use_ascii = False \<longrightarrow> t_tmaps T' = t_tmaps T"
    by (simp add: T' T1_def)
  have f4: "use_ascii = True \<longrightarrow> t_tmaps T' = map cl (t_tmaps T)"
    by (simp add: T' T1_def)
  have f5: "allow \<or> (\<forall>t\<in>set (t_tmaps T). \<not> uv_out_of_range t) \<longrightarrow> t_tmaps T' = t_tmaps T"
    using idm by (simp add: T' T1_def)
  from f1 f2 f3 f4 f5 nog show ?thesis unfolding cl_def by simp
qed

theorem tables_after_export_frame_witness:
  "tables_after_export double_ops False False 1 7 2 False (\<lambda>x. []) (\<lambda>x. []) (\<lambda>x. [])
     \<lparr>t_cmap = [[1, 0, 0, 1]], t_strs = [''m''], t_verts = [],
      t_tmaps = [(3 / 2, 1 / 2), (1 / 4, 1)], t_bones = [], t_skins = [], t_inlined = []\<rparr>
   = Inr \<lparr>t_cmap = [[1, 0, 0, 1]], t_strs = [''m''], t_verts = [],
      t_tmaps = [(3 / 2, 1 / 2), (1 / 4, 1)], t_bones = [], t_skins = [], t_inlined = []\<rparr> \<and>
   tables_after_export double_ops True False 1 7 2 False (\<lambda>x. []) (\<lambda>x. []) (\<lambda>x. [])
     \<lparr>t_cmap = [[1, 0, 0, 1]], t_strs = [''m''], t_verts = [],
      t_tmaps = [(1 / 2, 1 / 2), (1 / 4, 1)], t_bones = [], t_skins = [], t_inlined = []\<rparr>
   = Inr \<lparr>t_cmap = [[1, 0, 0, 1]], t_strs = [''m''], t_verts = [],
      t_tmaps = [(1 / 2, 1 / 2), (1 / 4, 1)], t_bones = [], t_skins = [], t_inlined = []\<rparr>"
proof -
  have b: "tables_after_export double_ops False False 1 7 2 False (\<lambda>x. []) (\<lambda>x. []) (\<lambda>x. [])
     \<lparr>t_cmap = [[1, 0, 0, 1]], t_strs = [''m''], t_verts = [],
      t_tmaps = [(3 / 2, 1 / 2), (1 / 4, 1)], t_bones = [], t_skins = [], t_inlined = []\<rparr>
   = Inr \<lparr>t_cmap = [[1, 0, 0, 1]], t_strs = [''m''], t_verts = [],
      t_tmaps = [(3 / 2, 1 / 2), (1 / 4, 1)], t_bones = [], t_skins = [], t_inlined = []\<rparr>"
    by (simp add: tables_after_export_def tables_after_binary_def normalize_coordinates_def
        uv_out_of_range_def pack_uv_def Let_def)
  have a: "tables_after_export double_ops True False 1 7 2 False (\<lambda>x. []) (\<lambda>x. []) (\<lambda>x. [])
     \<lparr>t_cmap = [[1, 0, 0, 1]], t_strs = [''m''], t_verts = [],
      t_tmaps = [(1 / 2, 1 / 2), (1 / 4, 1)], t_bones = [], t_skins = [], t_inlined = []\<rparr>
   = Inr \<lparr>t_cmap = [[1, 0, 0, 1]], t_strs = [''m''], t_verts = [],
      t_tmaps = [(1 / 2, 1 / 2), (1 / 4, 1)], t_bones = [], t_skins = [], t_inlined = []\<rparr>"
    by (simp add: tables_after_export_def tables_after_ascii_frame normalize_coordinates_def
        uv_out_of_range_def Let_def)
  from tables_after_export_frame [OF b] tables_after_export_frame [OF a] a b
  show ?thesis by simp
qed

subsection \<open>Material properties\<close>

lemma map_of_dict_set:
  "map_of (dict_set k v d) k' = (if k' = k then Some v else map_of d k')"
  by (induction d) auto

lemma set_color_prop_props:
  "map_of (ms_props (set_color_prop key c st)) k =
     (if k = key then Some (PRef (fst (uniquedict (ms_cmap st) c))) else map_of (ms_props st) k)"
  by (simp add: set_color_prop_def case_prod_beta map_of_dict_set)

lemma set_texture_prop_props:
  "k \<noteq> key \<Longrightarrow> map_of (ms_props (set_texture_prop ui key im st)) k = map_of (ms_props st) k"
  by (simp add: set_texture_prop_def Let_def case_prod_beta map_of_dict_set)

lemma prop_generic_cases:
  assumes "prop_generic ui w key kind attr st = Inr st'"
  shows "st' = st \<or> (\<exists>im. st' = set_texture_prop ui key im st) \<or>
         (\<exists>c. st' = set_color_prop key c st) \<or>
         (\<exists>x. st' = st\<lparr>ms_props := dict_set key (PFloat x) (ms_props st)\<rparr>)"
proof -
  define g where "g = (kind = ''gscale'')"
  define c where "c = (kind = ''color'')"
  define f where "f = (kind = ''float'')"
  define b where "b = (kind = ''byte'' \<or> kind = ''int'')"
  have pg: "prop_generic ui w key kind attr st =
     (case w attr of
        None \<Rightarrow> Inr st
      | Some val \<Rightarrow>
          if key \<ge> 128 then
            (case val of
               VTex None \<Rightarrow> Inr st
             | VTex (Some im) \<Rightarrow>
                 if img_name im = [] then Inr st
                 else Inr (set_texture_prop ui key im st)
             | _ \<Rightarrow> Inl AttributeError)
          else if g \<and> val \<noteq> VFloat 0 then
            (case val of VFloat x \<Rightarrow> Inr (set_color_prop key [x, x, x, 1] st)
             | _ \<Rightarrow> Inl TypeError)
          else if c then
            (case val of
               VSeq c \<Rightarrow>
                 if length c = 3 then Inr (set_color_prop key [c ! 0, c ! 1, c ! 2, 1] st)
                 else if length c = 4 then Inr (set_color_prop key c st)
                 else Inr st
             | _ \<Rightarrow> Inl TypeError)
          else if f \<and> val \<noteq> VFloat 0 then
            (case val of
               VFloat x \<Rightarrow> Inr (st\<lparr>ms_props := dict_set key (PFloat x) (ms_props st)\<rparr>)
             | _ \<Rightarrow> Inl TypeError)
          else if b \<and> val \<noteq> VFloat 0 then
            (case val of
               VFloat x \<Rightarrow> Inr (st\<lparr>ms_props := dict_set key (PFloat x) (ms_props st)\<rparr>)
             | _ \<Rightarrow> Inl TypeError)
          else Inr st)"
    unfolding prop_generic_def g_def c_def f_def b_def ..
  show ?thesis
  proof (cases "w attr")
    case None
    with assms show ?thesis unfolding pg by simp
  next
    case (Some val)
    show ?thesis
    proof (cases val)
      case (VFloat x)
      with assms Some show ?thesis unfolding pg
        by (cases "128 \<le> key"; cases g; cases c; cases f; cases b; cases "x = 0") auto
    next
      case (VSeq cs)
      with assms Some show ?thesis unfolding pg
        by (cases "128 \<le> key"; cases g; cases c; cases f; cases b;
            cases "length cs = 3"; cases "length cs = 4") auto
    next
      case (VTex im)
      with assms Some show ?thesis unfolding pg
        by (cases "128 \<le> key"; cases g; cases c; cases f; cases b; cases im)
          (auto split: if_splits)
    qed
  qed
qed

lemma prop_generic_other:
  assumes "prop_generic ui w key kind attr st = Inr st'" and "k \<noteq> key"
  shows "map_of (ms_props st') k = map_of (ms_props st) k"
  using prop_generic_cases [OF assms(1)] assms(2)
  by (auto simp: set_color_prop_props set_texture_prop_props map_of_dict_set)

lemma prop_generic_commented:
  assumes "key < 128" and "take 2 kind = ''//''"
  shows "prop_generic ui w key kind attr st = Inr st"
proof -
  from assms(2) have "kind \<noteq> ''gscale''" "kind \<noteq> ''color''" "kind \<noteq> ''float''"
    "kind \<noteq> ''byte''" "kind \<noteq> ''int''"
    by auto
  with assms(1) show ?thesis
    by (simp add: prop_generic_def split: option.splits)
qed

lemma prop_kd_other:
  assumes "prop_kd w st = Inr st'" and "k \<noteq> 0"
  shows "map_of (ms_props st') k = map_of (ms_props st) k"
  using assms
  by (auto simp: prop_kd_def set_color_prop_props split: sum.splits if_splits)

lemma prop_il_other:
  assumes "prop_il w st = Inr st'" and "k \<noteq> 8"
  shows "map_of (ms_props st') k = map_of (ms_props st) k"
  using assms
  by (auto simp: prop_il_def map_of_dict_set split: sum.splits if_splits)

lemma prop_il_specular_zero:
  assumes "prop_il w st = Inr st'" and "w ''specular'' = Some (VFloat 0)"
  shows "map_of (ms_props st') 8 = Some (PByte 1)"
  using assms
  by (auto simp: prop_il_def attr_float_def map_of_dict_set split: sum.splits if_splits)

lemma prop_step_other:
  assumes "prop_step ui w ent st = Inr st'" and "k \<noteq> fst ent"
  shows "map_of (ms_props st') k = map_of (ms_props st) k"
proof -
  obtain key kind attr kw where ent: "ent = (key, kind, attr, kw)" by (cases ent)
  from assms(2) ent have k: "k \<noteq> key" by simp
  show ?thesis
  proof (cases "key = 0")
    case True
    with assms(1) ent obtain st1 where "prop_kd w st = Inr st1"
      "prop_generic ui w key kind attr st1 = Inr st'"
      by (auto simp: prop_step_def split: sum.splits)
    with k True show ?thesis using prop_kd_other prop_generic_other by metis
  next
    case False
    show ?thesis
    proof (cases "key = 8")
      case True
      with assms(1) ent obtain st1 where "prop_il w st = Inr st1"
        "prop_generic ui w key kind attr st1 = Inr st'"
        by (auto simp: prop_step_def split: sum.splits)
      with k True show ?thesis using prop_il_other prop_generic_other by metis
    next
      case k8: False
      with False assms(1) ent have "st' = st \<or> prop_generic ui w key kind attr st = Inr st'"
        by (auto simp: prop_step_def split: if_splits)
      with k show ?thesis using prop_generic_other by metis
    qed
  qed
qed

lemma prop_loop_other:
  assumes "prop_loop ui w ents st = Inr st'" and "k \<notin> fst ` set ents"
  shows "map_of (ms_props st') k = map_of (ms_props st) k"
  using assms
proof (induction ents arbitrary: st)
  case Nil
  then show ?case by simp
next
  case (Cons ent ents)
  from Cons.prems(1) obtain st1 where s: "prop_step ui w ent st = Inr st1"
    "prop_loop ui w ents st1 = Inr st'"
    by (auto split: sum.splits)
  from Cons.prems(2) have "k \<noteq> fst ent" "k \<notin> fst ` set ents" by auto
  with s Cons.IH prop_step_other show ?case by metis
qed

lemma prop_loop_append:
  "prop_loop ui w (xs @ ys) st =
     (case prop_loop ui w xs st of Inl e \<Rightarrow> Inl e | Inr s \<Rightarrow> prop_loop ui w ys s)"
  by (induction xs arbitrary: st) (auto split: sum.splits)

lemma prop_step_il:
  assumes "prop_step ui w (8, ''//byte'', ''illumination'', ''il'') st = Inr st'"
    and "w ''specular'' = Some (VFloat 0)"
  shows "map_of (ms_props st') 8 = Some (PByte 1)"
proof -
  from assms(1) obtain st1 where a: "prop_il w st = Inr st1"
    and b: "prop_generic ui w 8 ''//byte'' ''illumination'' st1 = Inr st'"
    by (auto simp: prop_step_def split: sum.splits)
  have "prop_generic ui w 8 ''//byte'' ''illumination'' st1 = Inr st1"
    by (rule prop_generic_commented) simp_all
  with b have "st' = st1" by simp
  with prop_il_specular_zero [OF a assms(2)] show ?thesis by simp
qed

lemma mat_property_map_split:
  "mat_property_map =
     take 8 mat_property_map @ (8, ''//byte'', ''illumination'', ''il'') # drop 9 mat_property_map"
  by (simp add: mat_property_map_def)

lemma prop_loop_specular_zero:
  assumes "prop_loop ui w mat_property_map st = Inr st'"
    and "w ''specular'' = Some (VFloat 0)"
  shows "map_of (ms_props st') 8 = Some (PByte 1)"
proof -
  define pre where "pre = take 8 mat_property_map"
  define post where "post = drop 9 mat_property_map"
  have sp: "mat_property_map = pre @ (8, ''//byte'', ''illumination'', ''il'') # post"
    unfolding pre_def post_def by (rule mat_property_map_split)
  from assms(1) obtain s1 s2 where
    "prop_loop ui w pre st = Inr s1"
    and s2: "prop_step ui w (8, ''//byte'', ''illumination'', ''il'') s1 = Inr s2"
    and s3: "prop_loop ui w post s2 = Inr st'"
    unfolding sp by (auto simp: prop_loop_append split: sum.splits)
  have "8 \<notin> fst ` set post" by (simp add: post_def mat_property_map_def)
  from prop_loop_other [OF s3 this] prop_step_il [OF s2 assms(2)]
  show ?thesis by simp
qed

text \<open>
  C3 as stated fails on the code. For a wrapped material whose numbers are all 0,
  whose colours are black and which has no texture, the pass emits the diffuse colour,
  the specular tint and the illumination byte 1, and the material is written.
\<close>

theorem zero_material_counterexample:
  "export_material False \<lparr>m_name = ''m'', m_nodes = None, m_wrap = Some zero_wrapper\<rparr>
     \<lparr>x_cmap = [], x_strs = [], x_inlined = [], x_materials = []\<rparr>
   = Inr \<lparr>x_cmap = [([0, 0, 0, 1], 0, [0, 0, 0, 1])], x_strs = [(''m'', 0, ''m'')],
          x_inlined = [],
          x_materials = [(0, [(0, PRef 0), (3, PRef 0), (8, PByte 1)])]\<rparr>"
  by code_simp

text \<open>
  C3, amended. For every material with a shader wrapper whose specular value is 0,
  the property pass (when it raises no error) derives the illumination byte 1 and
  emits it as property 8, so the material has a property. A material is appended to
  the output, with the properties the pass emitted, when the pass emitted at least
  one property, and is left out when it emitted none, as for a material with neither a
  wrapper nor a node tree.
\<close>

theorem specular_zero_material:
  assumes "export_material use_inline mat X = Inr X'"
  shows "\<exists>st. material_props use_inline mat X = Inr st \<and>
           (ms_props st = [] \<longrightarrow> x_materials X' = x_materials X) \<and>
           (ms_props st \<noteq> [] \<longrightarrow>
              (\<exists>nm. x_materials X' = x_materials X @ [(nm, ms_props st)])) \<and>
           (\<forall>w. m_wrap mat = Some w \<and> w ''specular'' = Some (VFloat 0) \<longrightarrow>
              map_of (ms_props st) 8 = Some (PByte 1) \<and> ms_props st \<noteq> []) \<and>
           (m_wrap mat = None \<and> m_nodes mat = None \<longrightarrow> ms_props st = [])"
proof -
  from assms obtain st2 where st2: "material_props use_inline mat X = Inr st2"
    by (auto simp: export_material_def split: sum.splits)
  have mats: "x_materials X' =
      (if ms_props st2 \<noteq> []
       then x_materials X @ [(fst (uniquedict (ms_strs st2) (safestr (m_name mat))), ms_props st2)]
       else x_materials X)"
    using assms by (auto simp: export_material_def st2 case_prod_beta split: if_splits)
  have a: "map_of (ms_props st2) 8 = Some (PByte 1) \<and> ms_props st2 \<noteq> []"
    if w: "m_wrap mat = Some w" "w ''specular'' = Some (VFloat 0)" for w
  proof -
    from st2 w obtain st1 where "prop_loop use_inline w mat_property_map st1 = Inr st2"
      by (auto simp: material_props_def Let_def)
    from prop_loop_specular_zero [OF this w(2)]
    have p: "map_of (ms_props st2) 8 = Some (PByte 1)" .
    then have "ms_props st2 \<noteq> []" by auto
    with p show ?thesis by simp
  qed
  have b: "ms_props st2 = []" if "m_wrap mat = None" "m_nodes mat = None"
    using that st2 by (auto simp: material_props_def Let_def)
  have c: "ms_props st2 = [] \<longrightarrow> x_materials X' = x_materials X"
    by (simp add: mats)
  have d: "ms_props st2 \<noteq> [] \<longrightarrow> (\<exists>nm. x_materials X' = x_materials X @ [(nm, ms_props st2)])"
    by (simp add: mats)
  have a': "\<forall>w. m_wrap mat = Some w \<and> w ''specular'' = Some (VFloat 0) \<longrightarrow>
              map_of (ms_props st2) 8 = Some (PByte 1) \<and> ms_props st2 \<noteq> []"
    using a by blast
  have b': "m_wrap mat = None \<and> m_nodes mat = None \<longrightarrow> ms_props st2 = []"
    using b by blast
  have "material_props use_inline mat X = Inr st2 \<and>
           (ms_props st2 = [] \<longrightarrow> x_materials X' = x_materials X) \<and>
           (ms_props st2 \<noteq> [] \<longrightarrow>
              (\<exists>nm. x_materials X' = x_materials X @ [(nm, ms_props st2)])) \<and>
           (\<forall>w. m_wrap mat = Some w \<and> w ''specular'' = Some (VFloat 0) \<longrightarrow>
              map_of (ms_props st2) 8 = Some (PByte 1) \<and> ms_props st2 \<noteq> []) \<and>
           (m_wrap mat = None \<and> m_nodes mat = None \<longrightarrow> ms_props st2 = [])"
    using st2 c d a' b' by (intro conjI) assumption+
  then show ?thesis by (rule exI)
qed

theorem specular_zero_material_witness:
  "export_material False \<lparr>m_name = ''m'', m_nodes = None, m_wrap = Some zero_wrapper\<rparr>
     \<lparr>x_cmap = [], x_strs = [], x_inlined = [], x_materials = []\<rparr>
   = Inr \<lparr>x_cmap = [([0, 0, 0, 1], 0, [0, 0, 0, 1])], x_strs = [(''m'', 0, ''m'')],
          x_inlined = [],
          x_materials = [(0, [(0, PRef 0), (3, PRef 0), (8, PByte 1)])]\<rparr> \<and>
   zero_wrapper ''specular'' = Some (VFloat 0) \<and>
   map_of [(0, PRef 0), (3, PRef 0), (8 :: nat, PByte 1)] 8 = Some (PByte 1) \<and>
   export_material False \<lparr>m_name = ''n'', m_nodes = None, m_wrap = None\<rparr>
     \<lparr>x_cmap = [], x_strs = [], x_inlined = [], x_materials = []\<rparr>
   = Inr \<lparr>x_cmap = [], x_strs = [], x_inlined = [], x_materials = []\<rparr>"
proof -
  have e: "export_material False \<lparr>m_name = ''m'', m_nodes = None, m_wrap = Some zero_wrapper\<rparr>
     \<lparr>x_cmap = [], x_strs = [], x_inlined = [], x_materials = []\<rparr>
   = Inr \<lparr>x_cmap = [([0, 0, 0, 1], 0, [0, 0, 0, 1])], x_strs = [(''m'', 0, ''m'')],
          x_inlined = [],
          x_materials = [(0, [(0, PRef 0), (3, PRef 0), (8, PByte 1)])]\<rparr>"
    by code_simp
  have n: "export_material False \<lparr>m_name = ''n'', m_nodes = None, m_wrap = None\<rparr>
     \<lparr>x_cmap = [], x_strs = [], x_inlined = [], x_materials = []\<rparr>
   = Inr \<lparr>x_cmap = [], x_strs = [], x_inlined = [], x_materials = []\<rparr>"
    by (simp add: export_material_def material_props_def)
  have z: "zero_wrapper ''specular'' = Some (VFloat 0)" by (simp add: zero_wrapper_def)
  from specular_zero_material [OF e] specular_zero_material [OF n] e n z
  show ?thesis by simp
qed

subsection \<open>Skin weights\<close>

lemma py_round_bounds:
  "of_int (py_round x) \<le> x + 1 / 2" "x - 1 / 2 \<le> of_int (py_round x)"
proof -
  define fl where "fl = \<lfloor>x\<rfloor>"
  have f: "of_int fl \<le> x" "x < of_int fl + 1" unfolding fl_def by linarith+
  have c: "py_round x = fl \<and> x - of_int fl \<le> 1 / 2 \<or>
           py_round x = fl + 1 \<and> 1 / 2 \<le> x - of_int fl"
    unfolding py_round_def Let_def fl_def [symmetric] by auto
  show "of_int (py_round x) \<le> x + 1 / 2" using c f by auto
  show "x - 1 / 2 \<le> of_int (py_round x)" using c f by auto
qed

lemma clamp_byte_range: "1 \<le> clamp_byte s \<and> clamp_byte s \<le> 255"
  by (simp add: clamp_byte_def Let_def)

lemma clamp_byte_id: "1 \<le> s \<Longrightarrow> s \<le> 255 \<Longrightarrow> clamp_byte s = s"
  by (simp add: clamp_byte_def Let_def)

lemma sum_list_update_int:
  fixes ys :: "int list"
  shows "i < length ys \<Longrightarrow> sum_list (ys[i := v]) = sum_list ys - ys ! i + v"
proof (induction ys arbitrary: i)
  case Nil
  then show ?case by simp
next
  case (Cons y ys)
  then show ?case by (cases i) simp_all
qed

lemma nth_le_sum_list_int:
  fixes ys :: "int list"
  assumes "\<forall>y\<in>set ys. 0 \<le> y" and "i < length ys"
  shows "ys ! i \<le> sum_list ys"
  using assms
proof (induction ys arbitrary: i)
  case Nil
  then show ?case by simp
next
  case (Cons y ys)
  have nn: "0 \<le> sum_list ys" using Cons.prems(1) by (simp add: sum_list_nonneg)
  show ?case
  proof (cases i)
    case 0
    with nn show ?thesis by simp
  next
    case (Suc j)
    with Cons.prems have "ys ! j \<le> sum_list ys" by (intro Cons.IH) auto
    with Suc Cons.prems(1) show ?thesis by simp
  qed
qed

lemma clamp_byte_max_min: "clamp_byte s = max 1 (min 255 s)"
  by (simp add: clamp_byte_def Let_def)

text \<open>The loop is left through the \<open>except\<close> branch exactly when a group names no bone.\<close>

lemma skin_loop_broke:
  "snd (skin_loop F bones wsum gs a) = (\<exists>g\<in>set gs. bone_index bones (fst g) = None)"
  by (induction gs arbitrary: a) (auto simp: Let_def split: option.splits)

text \<open>The loop when every group names a bone; \<open>r g\<close> is the rounded share of \<open>g\<close>.\<close>

lemma skin_loop_found:
  assumes "\<forall>g\<in>set gs. bone_index bones (fst g) \<noteq> None"
    and r: "r = (\<lambda>g. py_round (f_mul F (f_div F (snd g) wsum) 255))"
  shows "sk_skin (fst (skin_loop F bones wsum gs a)) =
           sk_skin a @ map (\<lambda>g. (int (the (bone_index bones (fst g))), clamp_byte (r g))) gs"
    and "sk_w (fst (skin_loop F bones wsum gs a)) =
           sk_w a + sum_list (map (\<lambda>g. clamp_byte (r g)) gs)"
  using assms(1) unfolding r
  by (induction gs arbitrary: a) (auto simp: Let_def split: option.splits)

lemma skin_loop_max:
  assumes "\<forall>g\<in>set gs. bone_index bones (fst g) \<noteq> None"
    and r: "r = (\<lambda>g. py_round (f_mul F (f_div F (snd g) wsum) 255))"
  shows "sk_wm a \<le> sk_wm (fst (skin_loop F bones wsum gs a)) \<and>
         (\<forall>g\<in>set gs. r g \<le> sk_wm (fst (skin_loop F bones wsum gs a))) \<and>
         ((sk_wm (fst (skin_loop F bones wsum gs a)) = sk_wm a \<and>
           sk_si (fst (skin_loop F bones wsum gs a)) = sk_si a) \<or>
          (\<exists>i<length gs.
             sk_si (fst (skin_loop F bones wsum gs a)) = Some (length (sk_skin a) + i) \<and>
             r (gs ! i) = sk_wm (fst (skin_loop F bones wsum gs a)) \<and>
             sk_wm a < sk_wm (fst (skin_loop F bones wsum gs a)) \<and>
             (\<forall>j<i. r (gs ! j) < sk_wm (fst (skin_loop F bones wsum gs a)))))"
  using assms(1)
proof (induction gs arbitrary: a)
  case Nil
  show ?case by simp
next
  case (Cons g gs)
  define s where "s = r g"
  define a1 where
    "a1 = (if s > sk_wm a then a\<lparr>sk_wm := s, sk_si := Some (length (sk_skin a))\<rparr> else a)"
  from Cons.prems obtain b where b: "bone_index bones (fst g) = Some b" by auto
  define a2 where "a2 = a1\<lparr>sk_skin := sk_skin a1 @ [(int b, clamp_byte s)],
                             sk_w := sk_w a1 + clamp_byte s\<rparr>"
  define R where "R = fst (skin_loop F bones wsum gs a2)"
  have step: "fst (skin_loop F bones wsum (g # gs) a) = R"
    by (simp add: R_def a2_def a1_def s_def r b Let_def)
  have a2: "sk_wm a2 = sk_wm a1" "sk_si a2 = sk_si a1"
    "length (sk_skin a2) = Suc (length (sk_skin a))"
    by (simp_all add: a2_def a1_def)
  from Cons.prems have "\<forall>g\<in>set gs. bone_index bones (fst g) \<noteq> None" by simp
  from Cons.IH [OF this, of a2]
  have ih1: "sk_wm a1 \<le> sk_wm R"
    and ih2: "\<forall>g\<in>set gs. r g \<le> sk_wm R"
    and ih3: "(sk_wm R = sk_wm a1 \<and> sk_si R = sk_si a1) \<or>
          (\<exists>i<length gs. sk_si R = Some (Suc (length (sk_skin a)) + i) \<and>
             r (gs ! i) = sk_wm R \<and> sk_wm a1 < sk_wm R \<and> (\<forall>j<i. r (gs ! j) < sk_wm R))"
    unfolding R_def [symmetric] a2 by blast+
  have m1: "sk_wm a \<le> sk_wm a1" "s \<le> sk_wm a1" by (simp_all add: a1_def)
  have c1: "sk_wm a \<le> sk_wm R" using ih1 m1 by linarith
  have c2: "\<forall>g'\<in>set (g # gs). r g' \<le> sk_wm R"
    using ih1 ih2 m1 by (auto simp: s_def)
  have c3: "(sk_wm R = sk_wm a \<and> sk_si R = sk_si a) \<or>
          (\<exists>i<length (g # gs). sk_si R = Some (length (sk_skin a) + i) \<and>
             r ((g # gs) ! i) = sk_wm R \<and> sk_wm a < sk_wm R \<and>
             (\<forall>j<i. r ((g # gs) ! j) < sk_wm R))"
    using ih3
  proof
    assume e: "sk_wm R = sk_wm a1 \<and> sk_si R = sk_si a1"
    show ?thesis
    proof (cases "s > sk_wm a")
      case True
      then have "sk_wm a1 = s" "sk_si a1 = Some (length (sk_skin a))" by (simp_all add: a1_def)
      with e True have "0 < length (g # gs) \<and> sk_si R = Some (length (sk_skin a) + 0) \<and>
             r ((g # gs) ! 0) = sk_wm R \<and> sk_wm a < sk_wm R \<and>
             (\<forall>j<0. r ((g # gs) ! j) < sk_wm R)"
        by (simp add: s_def)
      then show ?thesis by blast
    next
      case False
      then have "a1 = a" by (simp add: a1_def)
      with e show ?thesis by simp
    qed
  next
    assume "\<exists>i<length gs. sk_si R = Some (Suc (length (sk_skin a)) + i) \<and>
             r (gs ! i) = sk_wm R \<and> sk_wm a1 < sk_wm R \<and> (\<forall>j<i. r (gs ! j) < sk_wm R)"
    then obtain i where i: "i < length gs" "sk_si R = Some (Suc (length (sk_skin a)) + i)"
      "r (gs ! i) = sk_wm R" "sk_wm a1 < sk_wm R" "\<forall>j<i. r (gs ! j) < sk_wm R" by blast
    have before: "r ((g # gs) ! j) < sk_wm R" if "j < Suc i" for j
    proof (cases j)
      case 0
      with m1(2) i(4) show ?thesis by (simp add: s_def)
    next
      case (Suc k)
      with that i(5) show ?thesis by simp
    qed
    from i m1 have "Suc i < length (g # gs) \<and> sk_si R = Some (length (sk_skin a) + Suc i) \<and>
             r ((g # gs) ! Suc i) = sk_wm R \<and> sk_wm a < sk_wm R"
      by simp
    with before show ?thesis by blast
  qed
  from c1 c2 c3 show ?case unfolding step by blast
qed

text \<open>The result of lines 512-537 when every group names a bone and some rounded share
  is positive: \<open>si\<close> is the first position of the largest rounded share.\<close>

lemma skin_core:
  assumes found: "\<forall>g\<in>set gs. bone_index bones (fst g) \<noteq> None"
    and r: "r = (\<lambda>g. py_round (f_mul F (f_div F (snd g) wsum) 255))"
    and pos: "\<exists>g\<in>set gs. 0 < r g"
  shows "\<exists>i<length gs.
           (\<forall>g\<in>set gs. r g \<le> r (gs ! i)) \<and> (\<forall>j<i. r (gs ! j) < r (gs ! i)) \<and>
           0 < r (gs ! i) \<and>
           skin_adjust (fst (skin_loop F bones wsum gs
                               \<lparr>sk_skin = [], sk_w = 0, sk_wm = 0, sk_si = si0\<rparr>)) =
             (map (\<lambda>g. (int (the (bone_index bones (fst g))), clamp_byte (r g))) gs)
               [i := (int (the (bone_index bones (fst (gs ! i)))),
                      clamp_byte (r (gs ! i)) +
                        (255 - sum_list (map (\<lambda>g. clamp_byte (r g)) gs)))]"
proof -
  define a0 where "a0 = \<lparr>sk_skin = [], sk_w = 0, sk_wm = 0, sk_si = si0\<rparr>"
  define R where "R = fst (skin_loop F bones wsum gs a0)"
  define ent where "ent = (\<lambda>g. (int (the (bone_index bones (fst g))), clamp_byte (r g)))"
  define W where "W = sum_list (map (\<lambda>g. clamp_byte (r g)) gs)"
  have sk: "sk_skin R = map ent gs" and w: "sk_w R = W"
    using skin_loop_found [OF found r, of a0]
    by (simp_all add: R_def a0_def ent_def W_def)
  from skin_loop_max [OF found r, of a0]
  have m2: "\<forall>g\<in>set gs. r g \<le> sk_wm R"
    and m3: "(sk_wm R = 0 \<and> sk_si R = si0) \<or>
          (\<exists>i<length gs. sk_si R = Some i \<and> r (gs ! i) = sk_wm R \<and> 0 < sk_wm R \<and>
             (\<forall>j<i. r (gs ! j) < sk_wm R))"
    unfolding R_def [symmetric] by (simp_all add: a0_def)
  from pos m2 have "0 < sk_wm R" by fastforce
  with m3 obtain i where i: "i < length gs" "sk_si R = Some i" "r (gs ! i) = sk_wm R"
    "\<forall>j<i. r (gs ! j) < sk_wm R" by auto
  have adj: "skin_adjust R = (map ent gs)[i := (fst (map ent gs ! i), snd (map ent gs ! i) + (255 - W))]"
  proof (cases "W = 255")
    case True
    then show ?thesis by (simp add: skin_adjust_def w sk)
  next
    case False
    with i show ?thesis by (simp add: skin_adjust_def w sk)
  qed
  have C: "skin_adjust R = (map ent gs)[i := (int (the (bone_index bones (fst (gs ! i)))),
                      clamp_byte (r (gs ! i)) + (255 - W))]"
    using i(1) by (simp add: adj ent_def)
  have A: "\<forall>g\<in>set gs. r g \<le> r (gs ! i)"
    using m2 unfolding i(3) .
  have A': "\<forall>j<i. r (gs ! j) < r (gs ! i)"
    using i(4) unfolding i(3) .
  have B: "0 < r (gs ! i)"
    using \<open>0 < sk_wm R\<close> unfolding i(3) .
  from i(1) A A' B C [unfolded R_def a0_def ent_def W_def] show ?thesis by blast
qed

lemma skin_sum_255:
  fixes c :: "'a \<Rightarrow> int"
  assumes "i < length gs"
  shows "sum_list (map snd ((map (\<lambda>g. (b g, c g)) gs)[i := (bi, c (gs ! i) + (255 - sum_list (map c gs)))]))
         = 255"
proof -
  have "map snd ((map (\<lambda>g. (b g, c g)) gs)[i := (bi, c (gs ! i) + (255 - sum_list (map c gs)))])
        = (map c gs)[i := c (gs ! i) + (255 - sum_list (map c gs))]"
    by (simp add: map_update comp_def)
  then show ?thesis using assms by (simp add: sum_list_update_int)
qed

lemma sum_list_le_const:
  fixes f :: "'a \<Rightarrow> int"
  assumes "\<forall>x\<in>set xs. f x \<le> M"
  shows "sum_list (map f xs) \<le> int (length xs) * M"
  using assms by (induction xs) (simp_all add: distrib_right)

lemma sum_list_map_mono_rat:
  fixes f g :: "'a \<Rightarrow> rat"
  assumes "\<forall>x\<in>set xs. f x \<le> g x"
  shows "sum_list (map f xs) \<le> sum_list (map g xs)"
  using assms by (induction xs) (simp_all add: add_mono)

lemma sum_list_plus_const:
  fixes f :: "'a \<Rightarrow> rat"
  shows "sum_list (map (\<lambda>x. f x + c) xs) = sum_list (map f xs) + of_nat (length xs) * c"
  by (induction xs) (simp_all add: distrib_right)

text \<open>Shares between 0 and 255 that add up to 255 within one half: rounding moves
  each by at most one half and clamping raises a share below 1 to 1.\<close>

lemma shares_facts:
  fixes x :: "'a \<Rightarrow> rat"
  assumes x01: "\<forall>g\<in>set gs. 0 \<le> x g \<and> x g \<le> 255"
    and sx: "\<bar>sum_list (map x gs) - 255\<bar> \<le> 1 / 2"
  shows "\<forall>g\<in>set gs. py_round (x g) \<le> 255"
    and "\<forall>g\<in>set gs. 0 \<le> py_round (x g)"
    and "sum_list (map (\<lambda>g. clamp_byte (py_round (x g))) gs) \<le> 255 + int (length gs)"
    and "509 / 2 - rat_of_nat (length gs) / 2
           \<le> of_int (sum_list (map (\<lambda>g. py_round (x g)) gs))"
proof -
  have x0: "0 \<le> x g" and x1: "x g \<le> 255" if "g \<in> set gs" for g
    using that x01 by auto
  have sx1: "sum_list (map x gs) \<le> 511 / 2" and sx2: "509 / 2 \<le> sum_list (map x gs)"
    using sx by linarith+
  show r255: "\<forall>g\<in>set gs. py_round (x g) \<le> 255"
  proof
    fix g assume g: "g \<in> set gs"
    have "rat_of_int (py_round (x g)) \<le> x g + 1 / 2" by (rule py_round_bounds)
    with x1 [OF g] have "rat_of_int (py_round (x g)) < 256" by linarith
    then have "py_round (x g) < 256" by linarith
    then show "py_round (x g) \<le> 255" by simp
  qed
  show r0: "\<forall>g\<in>set gs. 0 \<le> py_round (x g)"
  proof
    fix g assume g: "g \<in> set gs"
    have "x g - 1 / 2 \<le> rat_of_int (py_round (x g))" by (rule py_round_bounds)
    with x0 [OF g] have "- 1 < rat_of_int (py_round (x g))" by linarith
    then have "- 1 < py_round (x g)" by linarith
    then show "0 \<le> py_round (x g)" by simp
  qed
  have cl: "rat_of_int (clamp_byte (py_round (x g))) \<le> x g + 1" if "g \<in> set gs" for g
  proof (cases "py_round (x g) < 1")
    case True
    then have "clamp_byte (py_round (x g)) = 1" by (simp add: clamp_byte_def Let_def)
    with x0 [OF that] show ?thesis by simp
  next
    case False
    then have "clamp_byte (py_round (x g)) \<le> py_round (x g)"
      by (simp add: clamp_byte_def Let_def)
    then have "rat_of_int (clamp_byte (py_round (x g))) \<le> rat_of_int (py_round (x g))"
      by linarith
    with py_round_bounds(1) [of "x g"] show ?thesis by linarith
  qed
  have "rat_of_int (sum_list (map (\<lambda>g. clamp_byte (py_round (x g))) gs))
        = sum_list (map (\<lambda>g. rat_of_int (clamp_byte (py_round (x g)))) gs)"
    by (induction gs) simp_all
  also have "\<dots> \<le> sum_list (map (\<lambda>g. x g + 1) gs)"
    by (rule sum_list_map_mono_rat) (use cl in auto)
  also have "\<dots> = sum_list (map x gs) + rat_of_nat (length gs)"
    by (simp add: sum_list_plus_const)
  finally have "rat_of_int (sum_list (map (\<lambda>g. clamp_byte (py_round (x g))) gs))
        < rat_of_int (256 + int (length gs))" using sx1 by simp
  then have "sum_list (map (\<lambda>g. clamp_byte (py_round (x g))) gs) < 256 + int (length gs)"
    by (simp only: of_int_less_iff)
  then show "sum_list (map (\<lambda>g. clamp_byte (py_round (x g))) gs) \<le> 255 + int (length gs)"
    by simp
  have "509 / 2 - rat_of_nat (length gs) / 2 \<le> sum_list (map (\<lambda>g. x g + (- 1 / 2)) gs)"
    unfolding sum_list_plus_const using sx2 by simp
  also have "\<dots> \<le> sum_list (map (\<lambda>g. rat_of_int (py_round (x g))) gs)"
    by (rule sum_list_map_mono_rat) (use py_round_bounds(2) in auto)
  also have "\<dots> = rat_of_int (sum_list (map (\<lambda>g. py_round (x g)) gs))"
    by (induction gs) simp_all
  finally show "509 / 2 - rat_of_nat (length gs) / 2
           \<le> of_int (sum_list (map (\<lambda>g. py_round (x g)) gs))" .
qed

lemma largest_share:
  fixes x :: "'a \<Rightarrow> rat"
  assumes x01: "\<forall>g\<in>set gs. 0 \<le> x g \<and> x g \<le> 255"
    and sx: "\<bar>sum_list (map x gs) - 255\<bar> \<le> 1 / 2"
    and n: "length gs \<le> 15"
    and mx: "\<forall>g\<in>set gs. py_round (x g) \<le> M"
  shows "int (length gs) + 1 \<le> M"
proof (rule ccontr)
  assume "\<not> int (length gs) + 1 \<le> M"
  then have M: "M \<le> int (length gs)" by simp
  have "sum_list (map (\<lambda>g. py_round (x g)) gs) \<le> int (length gs) * M"
    by (rule sum_list_le_const) (rule mx)
  also have "\<dots> \<le> int (length gs) * int (length gs)"
    using M by (simp add: mult_left_mono)
  also have "\<dots> \<le> 15 * 15"
    using n by (intro mult_mono) simp_all
  finally have u: "sum_list (map (\<lambda>g. py_round (x g)) gs) \<le> 225" by simp
  have "rat_of_nat (length gs) \<le> 15" using n by simp
  with shares_facts(4) [OF x01 sx]
  have "247 \<le> rat_of_int (sum_list (map (\<lambda>g. py_round (x g)) gs))"
    by linarith
  moreover from u have "rat_of_int (sum_list (map (\<lambda>g. py_round (x g)) gs)) \<le> 225"
    by linarith
  ultimately show False by linarith
qed

lemma vertex_skin_unfold:
  assumes "ss_use_skeleton S" "ss_vg S \<noteq> []" "groups \<noteq> []"
  shows "\<not> 0 < weight_sum F groups \<Longrightarrow> vertex_skin F bones groups S = (- 1, S)"
    and "0 < weight_sum F groups \<Longrightarrow>
         fst (vertex_skin F bones groups S) =
           int (fst (uniquedict
             (ss_skins (if snd (skin_loop F bones (weight_sum F groups) groups
                                 \<lparr>sk_skin = [], sk_w = 0, sk_wm = 0, sk_si = ss_si S\<rparr>)
                         then S\<lparr>ss_use_skeleton := False, ss_vg := []\<rparr> else S))
             (vertex_weights F bones groups S)))"
    and "0 < weight_sum F groups \<Longrightarrow>
         ss_use_skeleton (snd (vertex_skin F bones groups S)) =
           (\<forall>g\<in>set groups. bone_index bones (fst g) \<noteq> None)"
  using assms
  by (simp_all add: vertex_skin_def vertex_weights_def skin_loop_broke Let_def case_prod_beta)

text \<open>The adjusted list: its sum, its upper bound, and the entries that are not
  adjusted.\<close>

lemma adjusted_skin:
  fixes gs :: "(string \<times> rat) list"
  assumes i: "i < length gs"
    and sk: "skin = (map (\<lambda>g. (b g, clamp_byte (r g))) gs)
                      [i := (bi, clamp_byte (r (gs ! i)) + (255 - sum_list (map (\<lambda>g. clamp_byte (r g)) gs)))]"
  shows "length skin = length gs"
    and "sum_list (map snd skin) = 255"
    and "\<forall>e\<in>set skin. snd e \<le> 255"
    and "\<forall>j<length gs. j \<noteq> i \<longrightarrow> snd (skin ! j) = clamp_byte (r (gs ! j))"
    and "snd (skin ! i) = clamp_byte (r (gs ! i)) + (255 - sum_list (map (\<lambda>g. clamp_byte (r g)) gs))"
proof -
  define W where "W = sum_list (map (\<lambda>g. clamp_byte (r g)) gs)"
  show "length skin = length gs" by (simp add: sk)
  show "sum_list (map snd skin) = 255"
    unfolding sk by (rule skin_sum_255 [OF i])
  have "(map (\<lambda>g. clamp_byte (r g)) gs) ! i \<le> sum_list (map (\<lambda>g. clamp_byte (r g)) gs)"
    by (rule nth_le_sum_list_int) (use i clamp_byte_range in \<open>auto intro: order_trans [of 0 1]\<close>)
  then have ci: "clamp_byte (r (gs ! i)) \<le> W" using i by (simp add: W_def)
  show "\<forall>e\<in>set skin. snd e \<le> 255"
  proof
    fix e assume "e \<in> set skin"
    then have "e \<in> insert (bi, clamp_byte (r (gs ! i)) + (255 - W))
                     (set (map (\<lambda>g. (b g, clamp_byte (r g))) gs))"
      unfolding sk W_def using set_update_subset_insert by fastforce
    then show "snd e \<le> 255" using ci clamp_byte_range by auto
  qed
  show "\<forall>j<length gs. j \<noteq> i \<longrightarrow> snd (skin ! j) = clamp_byte (r (gs ! j))"
    by (simp add: sk)
  show "snd (skin ! i) = clamp_byte (r (gs ! i)) + (255 - sum_list (map (\<lambda>g. clamp_byte (r g)) gs))"
    using i by (simp add: sk)
qed

text \<open>
  C7 as stated fails on the code. A vertex in 25 groups, 22 of them with weight 1
  and 3 with weight 0, gets the bytes 12 (22 times) and 1 (3 times), which sum to 267;
  the difference is taken from the first entry, which becomes 0: the set sums to 255
  and has an entry outside 1..255.
\<close>

theorem skin_weights_counterexample:
  "vertex_weights double_ops (example_bones 25) (example_groups 22 3)
     \<lparr>ss_use_skeleton = True, ss_vg = map fst (example_groups 22 3), ss_skins = [],
      ss_nb_m = 0, ss_si = None\<rparr> =
     (0, 0) # map (\<lambda>i. (int i, 12)) [1..<22] @ map (\<lambda>i. (int i, 1)) [22..<25] \<and>
   fst (vertex_skin double_ops (example_bones 25) (example_groups 22 3)
     \<lparr>ss_use_skeleton = True, ss_vg = map fst (example_groups 22 3), ss_skins = [],
      ss_nb_m = 0, ss_si = None\<rparr>) = 0"
  by code_simp

text \<open>
  C7, amended. For a vertex of a skinned mesh whose groups all name bones, with
  \<open>wsum\<close> the sum of the raw weights as the code adds them, \<open>share g\<close> the weight of \<open>g\<close>
  divided by \<open>wsum\<close> and multiplied by 255 in double arithmetic, and \<open>byte g\<close> the rounded
  share clamped to 1..255: if \<open>wsum\<close> is not positive the vertex is unskinned (index
  -1); otherwise the vertex gets the pooled index of its list of bytes. When some
  rounded share is positive, the list is the list of the bytes (each with the index
  of its bone) in which the difference between 255 and the sum of the bytes is added
  to the first entry with the largest rounded share: it sums to exactly 255, no entry
  exceeds 255, every entry other than the adjusted one lies in 1..255, and the
  adjusted entry is at least 1 exactly when the other bytes sum to at most 254. With
  at most 15 influences whose shares lie between 0 and 255 and add up to 255 within
  one half, every entry lies in 1..255.
\<close>

theorem skin_weights_normalised:
  fixes groups :: "(string \<times> rat) list"
  assumes on: "ss_use_skeleton S" "ss_vg S \<noteq> []" "groups \<noteq> []"
    and found: "\<forall>g\<in>set groups. bone_index bones (fst g) \<noteq> None"
    and ws: "wsum = weight_sum F groups"
    and sh: "share = (\<lambda>g. f_mul F (f_div F (snd g) wsum) 255)"
    and bt: "byte = (\<lambda>g. max 1 (min 255 (py_round (share g))))"
    and sk: "skin = vertex_weights F bones groups S"
  shows "(\<not> 0 < wsum \<longrightarrow> vertex_skin F bones groups S = (- 1, S)) \<and>
         (0 < wsum \<longrightarrow>
            fst (vertex_skin F bones groups S) = int (fst (uniquedict (ss_skins S) skin))) \<and>
         (0 < wsum \<and> (\<exists>g\<in>set groups. 0 < py_round (share g)) \<longrightarrow>
            (\<exists>i<length groups.
               (\<forall>g\<in>set groups. py_round (share g) \<le> py_round (share (groups ! i))) \<and>
               (\<forall>j<i. py_round (share (groups ! j)) < py_round (share (groups ! i))) \<and>
               skin = (map (\<lambda>g. (int (the (bone_index bones (fst g))), byte g)) groups)
                        [i := (int (the (bone_index bones (fst (groups ! i)))),
                               byte (groups ! i) + (255 - sum_list (map byte groups)))] \<and>
               sum_list (map snd skin) = 255 \<and>
               (\<forall>e\<in>set skin. snd e \<le> 255) \<and>
               (\<forall>j<length groups. j \<noteq> i \<longrightarrow> 1 \<le> snd (skin ! j) \<and> snd (skin ! j) \<le> 255) \<and>
               (1 \<le> snd (skin ! i) \<longleftrightarrow>
                  sum_list (map byte groups) - byte (groups ! i) \<le> 254))) \<and>
         (0 < wsum \<and> length groups \<le> 15 \<and>
          (\<forall>g\<in>set groups. 0 \<le> share g \<and> share g \<le> 255) \<and>
          \<bar>sum_list (map share groups) - 255\<bar> \<le> 1 / 2 \<longrightarrow>
            length skin = length groups \<and> sum_list (map snd skin) = 255 \<and>
            (\<forall>e\<in>set skin. 1 \<le> snd e \<and> snd e \<le> 255))"
proof -
  define r where "r = (\<lambda>g :: string \<times> rat. py_round (share g))"
  define b where "b = (\<lambda>g :: string \<times> rat. int (the (bone_index bones (fst g))))"
  define W where "W = sum_list (map byte groups)"
  have r: "r = (\<lambda>g. py_round (f_mul F (f_div F (snd g) wsum) 255))"
    by (simp add: r_def sh)
  have byte: "byte = (\<lambda>g. clamp_byte (r g))"
    by (simp add: bt r_def clamp_byte_max_min)
  have nb: "snd (skin_loop F bones wsum groups a) = False" for a
    using found by (simp add: skin_loop_broke)
  have p1: "\<not> 0 < wsum \<longrightarrow> vertex_skin F bones groups S = (- 1, S)"
    using vertex_skin_unfold(1) [OF on, of F bones] by (simp add: ws)
  have p2: "0 < wsum \<longrightarrow>
            fst (vertex_skin F bones groups S) = int (fst (uniquedict (ss_skins S) skin))"
    using vertex_skin_unfold(2) [OF on, of F bones] nb by (simp add: ws [symmetric] sk)
  have core: "\<exists>i<length groups.
           (\<forall>g\<in>set groups. r g \<le> r (groups ! i)) \<and> (\<forall>j<i. r (groups ! j) < r (groups ! i)) \<and>
           0 < r (groups ! i) \<and>
           skin = (map (\<lambda>g. (b g, byte g)) groups)
                    [i := (b (groups ! i), byte (groups ! i) + (255 - W))]"
    if pos: "\<exists>g\<in>set groups. 0 < r g"
    using skin_core [OF found r pos, of "ss_si S"]
    unfolding sk vertex_weights_def ws [symmetric] b_def W_def byte by simp
  have bounds: "length skin = length groups \<and> sum_list (map snd skin) = 255 \<and>
      (\<forall>e\<in>set skin. snd e \<le> 255) \<and>
      (\<forall>j<length groups. j \<noteq> i \<longrightarrow> snd (skin ! j) = byte (groups ! j)) \<and>
      snd (skin ! i) = byte (groups ! i) + (255 - W)"
    if i: "i < length groups"
      and s: "skin = (map (\<lambda>g. (b g, byte g)) groups)
                    [i := (b (groups ! i), byte (groups ! i) + (255 - W))]"
    for i
  proof -
    have s': "skin = (map (\<lambda>g. (b g, clamp_byte (r g))) groups)
                    [i := (b (groups ! i), clamp_byte (r (groups ! i)) +
                            (255 - sum_list (map (\<lambda>g. clamp_byte (r g)) groups)))]"
      using s unfolding W_def byte .
    note a = adjusted_skin [OF i s']
    from a show ?thesis unfolding W_def byte by blast
  qed
  have rng: "1 \<le> byte g \<and> byte g \<le> 255" for g
    unfolding byte using clamp_byte_range by simp
  have p3: "\<exists>i<length groups.
               (\<forall>g\<in>set groups. r g \<le> r (groups ! i)) \<and>
               (\<forall>j<i. r (groups ! j) < r (groups ! i)) \<and>
               skin = (map (\<lambda>g. (b g, byte g)) groups)
                        [i := (b (groups ! i), byte (groups ! i) + (255 - W))] \<and>
               sum_list (map snd skin) = 255 \<and>
               (\<forall>e\<in>set skin. snd e \<le> 255) \<and>
               (\<forall>j<length groups. j \<noteq> i \<longrightarrow> 1 \<le> snd (skin ! j) \<and> snd (skin ! j) \<le> 255) \<and>
               (1 \<le> snd (skin ! i) \<longleftrightarrow> W - byte (groups ! i) \<le> 254)"
    if pos: "\<exists>g\<in>set groups. 0 < r g"
  proof -
    from core [OF pos] obtain i where i: "i < length groups"
      and mx: "\<forall>g\<in>set groups. r g \<le> r (groups ! i)"
      and fst: "\<forall>j<i. r (groups ! j) < r (groups ! i)"
      and s: "skin = (map (\<lambda>g. (b g, byte g)) groups)
                    [i := (b (groups ! i), byte (groups ! i) + (255 - W))]"
      by blast
    from bounds [OF i s] have a: "sum_list (map snd skin) = 255" "\<forall>e\<in>set skin. snd e \<le> 255"
      "\<forall>j<length groups. j \<noteq> i \<longrightarrow> snd (skin ! j) = byte (groups ! j)"
      "snd (skin ! i) = byte (groups ! i) + (255 - W)" by blast+
    have others: "\<forall>j<length groups. j \<noteq> i \<longrightarrow> 1 \<le> snd (skin ! j) \<and> snd (skin ! j) \<le> 255"
      using a(3) rng by simp
    have adjusted: "1 \<le> snd (skin ! i) \<longleftrightarrow> W - byte (groups ! i) \<le> 254"
      unfolding a(4) by linarith
    from i mx fst s a(1,2) others adjusted show ?thesis by blast
  qed
  have p4: "length skin = length groups \<and> sum_list (map snd skin) = 255 \<and>
            (\<forall>e\<in>set skin. 1 \<le> snd e \<and> snd e \<le> 255)"
    if n: "length groups \<le> 15"
      and x01: "\<forall>g\<in>set groups. 0 \<le> share g \<and> share g \<le> 255"
      and sx: "\<bar>sum_list (map share groups) - 255\<bar> \<le> 1 / 2"
  proof -
    have pos: "\<exists>g\<in>set groups. 0 < r g"
    proof (rule ccontr)
      assume "\<not> (\<exists>g\<in>set groups. 0 < r g)"
      then have "\<forall>g\<in>set groups. py_round (share g) \<le> 0" by (auto simp: r_def)
      from largest_share [OF x01 sx n this] show False by simp
    qed
    from core [OF pos] obtain i where i: "i < length groups"
      and mx: "\<forall>g\<in>set groups. r g \<le> r (groups ! i)"
      and s: "skin = (map (\<lambda>g. (b g, byte g)) groups)
                    [i := (b (groups ! i), byte (groups ! i) + (255 - W))]"
      by blast
    from bounds [OF i s] have a: "length skin = length groups" "sum_list (map snd skin) = 255"
      "\<forall>e\<in>set skin. snd e \<le> 255"
      "\<forall>j<length groups. j \<noteq> i \<longrightarrow> snd (skin ! j) = byte (groups ! j)"
      "snd (skin ! i) = byte (groups ! i) + (255 - W)" by blast+
    have M1: "int (length groups) + 1 \<le> r (groups ! i)"
      using largest_share [OF x01 sx n, of "r (groups ! i)"] mx by (simp add: r_def)
    have M2: "r (groups ! i) \<le> 255"
      using shares_facts(1) [OF x01 sx] i by (simp add: r_def)
    have ci: "byte (groups ! i) = r (groups ! i)"
      unfolding byte by (rule clamp_byte_id) (use M1 M2 in auto)
    have Wb: "W \<le> 255 + int (length groups)"
      using shares_facts(3) [OF x01 sx] by (simp add: W_def byte r_def)
    have vi: "1 \<le> snd (skin ! i)"
      using a(5) ci M1 Wb by linarith
    have lo: "1 \<le> snd e" if e: "e \<in> set skin" for e
    proof -
      from e obtain j where j: "j < length skin" "e = skin ! j" by (auto simp: in_set_conv_nth)
      show ?thesis
      proof (cases "j = i")
        case True
        with vi j show ?thesis by simp
      next
        case False
        with j a(1) a(4) have "snd e = byte (groups ! j)" by simp
        with rng show ?thesis by simp
      qed
    qed
    from a(1,2,3) lo show ?thesis by blast
  qed
  from p1 p2 p3 p4 show ?thesis unfolding r_def W_def b_def by blast
qed

theorem skin_weights_normalised_witness:
  "vertex_weights double_ops (example_bones 2) [(''b'', 3), (''bb'', 1)]
     \<lparr>ss_use_skeleton = True, ss_vg = [''b'', ''bb''], ss_skins = [], ss_nb_m = 0, ss_si = None\<rparr>
     = [(0, 191), (1, 64)] \<and>
   vertex_weights double_ops (example_bones 2) [(''b'', 1), (''bb'', 1)]
     \<lparr>ss_use_skeleton = True, ss_vg = [''b'', ''bb''], ss_skins = [], ss_nb_m = 0, ss_si = None\<rparr>
     = [(0, 127), (1, 128)] \<and>
   vertex_skin double_ops (example_bones 2) [(''b'', 3), (''bb'', 1)]
     \<lparr>ss_use_skeleton = True, ss_vg = [''b'', ''bb''], ss_skins = [], ss_nb_m = 0, ss_si = None\<rparr>
     = (0, \<lparr>ss_use_skeleton = True, ss_vg = [''b'', ''bb''],
             ss_skins = [([(0, 191), (1, 64)], 0, [(0, 191), (1, 64)])],
             ss_nb_m = 2, ss_si = Some 0\<rparr>) \<and>
   sum_list (map snd [(0 :: int, 191 :: int), (1, 64)]) = 255 \<and>
   vertex_skin double_ops (example_bones 2) [(''b'', 0), (''bb'', 0)]
     \<lparr>ss_use_skeleton = True, ss_vg = [''b'', ''bb''], ss_skins = [], ss_nb_m = 0, ss_si = None\<rparr>
     = (- 1, \<lparr>ss_use_skeleton = True, ss_vg = [''b'', ''bb''], ss_skins = [], ss_nb_m = 0,
               ss_si = None\<rparr>)"
proof -
  define S where "S = \<lparr>ss_use_skeleton = True, ss_vg = [''b'', ''bb''],
                        ss_skins = ([] :: (skin, skin) pydict), ss_nb_m = 0, ss_si = None\<rparr>"
  have on: "ss_use_skeleton S" "ss_vg S \<noteq> []" by (simp_all add: S_def)
  have f: "\<forall>g\<in>set [(''b'', 3 :: rat), (''bb'', 1)]. bone_index (example_bones 2) (fst g) \<noteq> None"
    by code_simp
  have f0: "\<forall>g\<in>set [(''b'', 0 :: rat), (''bb'', 0)]. bone_index (example_bones 2) (fst g) \<noteq> None"
    by code_simp
  have s4: "weight_sum double_ops [(''b'', 3), (''bb'', 1)] = 4" by code_simp
  have s0: "weight_sum double_ops [(''b'', 0), (''bb'', 0)] = 0" by code_simp
  have sh: "f_mul double_ops (f_div double_ops 3 4) 255 = 765 / 4"
    "f_mul double_ops (f_div double_ops 1 4) 255 = 255 / 4" by code_simp+
  have w: "vertex_weights double_ops (example_bones 2) [(''b'', 3), (''bb'', 1)] S = [(0, 191), (1, 64)]"
    unfolding S_def by code_simp
  have w1: "vertex_weights double_ops (example_bones 2) [(''b'', 1), (''bb'', 1)] S = [(0, 127), (1, 128)]"
    unfolding S_def by code_simp
  have v: "vertex_skin double_ops (example_bones 2) [(''b'', 3), (''bb'', 1)] S
     = (0, \<lparr>ss_use_skeleton = True, ss_vg = [''b'', ''bb''],
             ss_skins = [([(0, 191), (1, 64)], 0, [(0, 191), (1, 64)])],
             ss_nb_m = 2, ss_si = Some 0\<rparr>)"
    unfolding S_def by code_simp
  have a: "sum_list (map snd (vertex_weights double_ops (example_bones 2) [(''b'', 3), (''bb'', 1)] S)) = 255"
    using skin_weights_normalised [OF on _ f refl refl refl refl, of double_ops] by (simp add: s4 sh)
  have z: "vertex_skin double_ops (example_bones 2) [(''b'', 0), (''bb'', 0)] S = (- 1, S)"
    using skin_weights_normalised [OF on _ f0 refl refl refl refl, of double_ops] by (simp add: s0)
  from a z w w1 v show ?thesis unfolding S_def by simp
qed

subsection \<open>Animation and skeleton export\<close>

text \<open>
  C10 as stated fails on the code. Animation is requested and the start of the run
  switches skeleton export on; then a vertex of a mesh lies in a vertex group \<open>x\<close>
  while the only bone is named \<open>b\<close>: line 529 switches skeleton export off, and
  animation is still requested.
\<close>

theorem skeleton_switched_off_counterexample:
  "use_animation (normalize_options \<lparr>use_skeleton = False, use_animation = True, use_fps = 25\<rparr>) \<and>
   use_skeleton (normalize_options \<lparr>use_skeleton = False, use_animation = True, use_fps = 25\<rparr>) \<and>
   use_animation (options_after_vertex double_ops (example_bones 1) [(''x'', 1)]
       \<lparr>ss_use_skeleton = True, ss_vg = [''x''], ss_skins = [], ss_nb_m = 0, ss_si = None\<rparr>
       (normalize_options \<lparr>use_skeleton = False, use_animation = True, use_fps = 25\<rparr>)) \<and>
   \<not> use_skeleton (options_after_vertex double_ops (example_bones 1) [(''x'', 1)]
       \<lparr>ss_use_skeleton = True, ss_vg = [''x''], ss_skins = [], ss_nb_m = 0, ss_si = None\<rparr>
       (normalize_options \<lparr>use_skeleton = False, use_animation = True, use_fps = 25\<rparr>))"
  by code_simp

text \<open>
  C10, amended. When animation export is requested, the option normalisation at the
  start of the run switches skeleton export on, whatever the caller passed for it,
  and leaves the animation request as it was. Skeleton export does not stay on for the
  whole run: a vertex that is skinned (skeleton export on, vertex groups present, a
  positive sum of weights) leaves skeleton export on exactly when all its groups name
  bones, and never changes the animation request; any other vertex leaves both
  options as they are. The actions stage exports nothing when skeleton export is off
  or there are no bones.
\<close>

theorem animation_skeleton_flags:
  "(use_animation opts \<longrightarrow>
      use_skeleton (normalize_options opts) \<and> use_animation (normalize_options opts)) \<and>
   use_animation (options_after_vertex F bones groups S opts) = use_animation opts \<and>
   (use_skeleton opts \<and> ss_vg S \<noteq> [] \<and> groups \<noteq> [] \<and> 0 < weight_sum F groups \<longrightarrow>
      use_skeleton (options_after_vertex F bones groups S opts) =
        (\<forall>g\<in>set groups. bone_index bones (fst g) \<noteq> None)) \<and>
   (\<not> (use_skeleton opts \<and> ss_vg S \<noteq> [] \<and> groups \<noteq> [] \<and> 0 < weight_sum F groups) \<longrightarrow>
      use_skeleton (options_after_vertex F bones groups S opts) = use_skeleton opts) \<and>
   (\<not> use_skeleton opts \<or> bones = [] \<longrightarrow> actions_stage F opts bones digits acts X = Inr X)"
proof -
  define S1 where "S1 = S\<lparr>ss_use_skeleton := use_skeleton opts\<rparr>"
  have a: "use_animation opts \<longrightarrow>
      use_skeleton (normalize_options opts) \<and> use_animation (normalize_options opts)"
    by (simp add: normalize_options_def Let_def)
  have b: "use_animation (options_after_vertex F bones groups S opts) = use_animation opts"
    by (simp add: options_after_vertex_def)
  have c: "use_skeleton (options_after_vertex F bones groups S opts) =
        (\<forall>g\<in>set groups. bone_index bones (fst g) \<noteq> None)"
    if "use_skeleton opts" "ss_vg S \<noteq> []" "groups \<noteq> []" "0 < weight_sum F groups"
  proof -
    have "ss_use_skeleton S1" "ss_vg S1 \<noteq> []" using that by (simp_all add: S1_def)
    from vertex_skin_unfold(3) [OF this that(3,4), of bones]
    show ?thesis by (simp add: options_after_vertex_def S1_def)
  qed
  have d: "use_skeleton (options_after_vertex F bones groups S opts) = use_skeleton opts"
    if "\<not> (use_skeleton opts \<and> ss_vg S \<noteq> [] \<and> groups \<noteq> [] \<and> 0 < weight_sum F groups)"
    using that by (auto simp: options_after_vertex_def vertex_skin_def Let_def)
  have e: "actions_stage F opts bones digits acts X = Inr X" if "\<not> use_skeleton opts \<or> bones = []"
    using that by (auto simp: actions_stage_def)
  from a b c d e show ?thesis by blast
qed

theorem animation_skeleton_flags_witness:
  "use_skeleton (normalize_options \<lparr>use_skeleton = False, use_animation = True, use_fps = 25\<rparr>) \<and>
   use_skeleton (options_after_vertex double_ops (example_bones 1) [(''b'', 1)]
       \<lparr>ss_use_skeleton = True, ss_vg = [''b''], ss_skins = [], ss_nb_m = 0, ss_si = None\<rparr>
       \<lparr>use_skeleton = True, use_animation = True, use_fps = 25\<rparr>) \<and>
   \<not> use_skeleton (options_after_vertex double_ops (example_bones 1) [(''x'', 1)]
       \<lparr>ss_use_skeleton = True, ss_vg = [''x''], ss_skins = [], ss_nb_m = 0, ss_si = None\<rparr>
       \<lparr>use_skeleton = True, use_animation = True, use_fps = 25\<rparr>) \<and>
   actions_stage double_ops \<lparr>use_skeleton = False, use_animation = True, use_fps = 25\<rparr>
       two_bones 4 [((''Anim'', 1, 5), two_bones_pose)]
       \<lparr>ae_strs = [], ae_verts = two_bones_verts, ae_actions = [], ae_fi_m = 0\<rparr> =
     Inr \<lparr>ae_strs = [], ae_verts = two_bones_verts, ae_actions = [], ae_fi_m = 0\<rparr>"
proof -
  have w: "weight_sum double_ops [(''b'', 1)] = 1" "weight_sum double_ops [(''x'', 1)] = 1"
    by code_simp+
  have b: "bone_index (example_bones 1) ''b'' \<noteq> None" "bone_index (example_bones 1) ''x'' = None"
    by code_simp+
  have 1: "use_skeleton (normalize_options \<lparr>use_skeleton = False, use_animation = True, use_fps = 25\<rparr>)"
    using animation_skeleton_flags
      [of "\<lparr>use_skeleton = False, use_animation = True, use_fps = 25\<rparr>"] by simp
  have 2: "use_skeleton (options_after_vertex double_ops (example_bones 1) [(''b'', 1)]
       \<lparr>ss_use_skeleton = True, ss_vg = [''b''], ss_skins = [], ss_nb_m = 0, ss_si = None\<rparr>
       \<lparr>use_skeleton = True, use_animation = True, use_fps = 25\<rparr>)"
    using animation_skeleton_flags
      [of "\<lparr>use_skeleton = True, use_animation = True, use_fps = 25\<rparr>" double_ops
          "example_bones 1" "[(''b'', 1)]"
          "\<lparr>ss_use_skeleton = True, ss_vg = [''b''], ss_skins = [], ss_nb_m = 0, ss_si = None\<rparr>"]
      w b by simp
  have 3: "\<not> use_skeleton (options_after_vertex double_ops (example_bones 1) [(''x'', 1)]
       \<lparr>ss_use_skeleton = True, ss_vg = [''x''], ss_skins = [], ss_nb_m = 0, ss_si = None\<rparr>
       \<lparr>use_skeleton = True, use_animation = True, use_fps = 25\<rparr>)"
    using animation_skeleton_flags
      [of "\<lparr>use_skeleton = True, use_animation = True, use_fps = 25\<rparr>" double_ops
          "example_bones 1" "[(''x'', 1)]"
          "\<lparr>ss_use_skeleton = True, ss_vg = [''x''], ss_skins = [], ss_nb_m = 0, ss_si = None\<rparr>"]
      w b by simp
  have 4: "actions_stage double_ops \<lparr>use_skeleton = False, use_animation = True, use_fps = 25\<rparr>
       two_bones 4 [((''Anim'', 1, 5), two_bones_pose)]
       \<lparr>ae_strs = [], ae_verts = two_bones_verts, ae_actions = [], ae_fi_m = 0\<rparr> =
     Inr \<lparr>ae_strs = [], ae_verts = two_bones_verts, ae_actions = [], ae_fi_m = 0\<rparr>"
    using animation_skeleton_flags
      [of "\<lparr>use_skeleton = False, use_animation = True, use_fps = 25\<rparr>" double_ops]
    by simp
  from 1 2 3 4 show ?thesis by blast
qed

subsection \<open>Animation frames\<close>



















end
